theory Spec2Isabelle
  imports Main "HOL-Library.Sublist"
begin

section \<open>The job resolvers of the GraphQL SDK (src/@livepeer/graphql-sdk/src/index.js)\<close>

subsection \<open>JavaScript values\<close>

text \<open>
  The resolvers inspect two attributes of a job with \<^verbatim>\<open>typeof\<close>, so those
  attributes are modelled as JavaScript values. An absent attribute reads as
  \<open>JUndefined\<close>.
\<close>

datatype jsval = JUndefined | JNull | JBool bool | JNum int | JStr string

fun typeof :: "jsval \<Rightarrow> string" where
  "typeof JUndefined = ''undefined''"
| "typeof JNull = ''object''"
| "typeof (JBool b) = ''boolean''"
| "typeof (JNum n) = ''number''"
| "typeof (JStr s) = ''string''"

subsection \<open>Data model\<close>

text \<open>
  One transcoding option of a raw job, as the RPC client supplies it: a content hash
  and the four attributes of a video profile.
\<close>

record transcoding_option =
  hash :: string
  opt_name :: string
  opt_bitrate :: string
  opt_framerate :: int
  opt_resolution :: string

record VideoProfile =
  vp_id :: string
  vp_name :: string
  vp_bitrate :: string
  vp_framerate :: int
  vp_resolution :: string

record RawJobRecord =
  jobId :: int
  streamId :: string
  transcodingOptions :: "transcoding_option list"
  transcoder :: string
  broadcaster :: string

text \<open>
  The object \<^verbatim>\<open>transformJob\<close> builds, with the two attributes \<^verbatim>\<open>live\<close> and
  \<^verbatim>\<open>url\<close> that the batch query adds and the field resolvers read.
\<close>

record NormalizedJob =
  job_type :: string
  job_id :: int
  job_broadcaster :: string
  job_profiles :: "VideoProfile list"
  job_stream :: string
  job_transcoder :: string
  job_live :: jsval
  job_url :: jsval

subsection \<open>Schema constants (lines 16-19 and the argument declarations)\<close>

definition DEFAULT_STREAM_ROOT :: string where
  "DEFAULT_STREAM_ROOT = ''http://streams.livepeer.org''"

text \<open>The default of the \<^verbatim>\<open>streamRoot\<close> option of \<^verbatim>\<open>createSchema\<close>; the body of
  \<^verbatim>\<open>createSchema\<close> never reads that option.\<close>

definition createSchema_streamRoot :: string where
  "createSchema_streamRoot = ''http://www.streambox.fr/playlists/x36xhzz/''"

record arg_decl =
  arg_name :: string
  arg_type :: string
  defaultValue :: jsval

text \<open>The \<^verbatim>\<open>args\<close> of each field of the object type \<^verbatim>\<open>VideoJob\<close>.\<close>

definition VideoJob_args :: "string \<Rightarrow> arg_decl list" where
  "VideoJob_args field =
     (if field = ''live'' then
        [\<lparr>arg_name = ''streamRootUrl'', arg_type = ''String'',
          defaultValue = JStr DEFAULT_STREAM_ROOT\<rparr>]
      else if field = ''url'' then
        [\<lparr>arg_name = ''streamRootUrl'', arg_type = ''String'',
          defaultValue = JStr DEFAULT_STREAM_ROOT\<rparr>]
      else [])"

text \<open>The \<^verbatim>\<open>args\<close> of each field of the root type \<^verbatim>\<open>Query\<close>.\<close>

definition Query_args :: "string \<Rightarrow> arg_decl list" where
  "Query_args field =
     (if field = ''job'' then
        [\<lparr>arg_name = ''id'', arg_type = ''Int!'', defaultValue = JUndefined\<rparr>]
      else if field = ''jobs'' then
        [\<lparr>arg_name = ''dead'', arg_type = ''Boolean'', defaultValue = JBool False\<rparr>,
         \<lparr>arg_name = ''streamRootUrl'', arg_type = ''String'',
          defaultValue = JStr DEFAULT_STREAM_ROOT\<rparr>,
         \<lparr>arg_name = ''broadcaster'', arg_type = ''String'', defaultValue = JUndefined\<rparr>]
      else [])"

subsection \<open>Job normalizer (lines 271-289)\<close>

text \<open>
  The arrow function mapped over \<^verbatim>\<open>transcodingOptions\<close>: the \<^verbatim>\<open>hash\<close> attribute
  is taken out and stored as \<^verbatim>\<open>id\<close>, the rest of the option is spread into the result.
\<close>

definition transformProfile :: "transcoding_option \<Rightarrow> VideoProfile" where
  "transformProfile opt =
     \<lparr>vp_id = hash opt,
      vp_name = opt_name opt,
      vp_bitrate = opt_bitrate opt,
      vp_framerate = opt_framerate opt,
      vp_resolution = opt_resolution opt\<rparr>"

definition transformJob :: "RawJobRecord \<Rightarrow> NormalizedJob" where
  "transformJob raw =
     \<lparr>job_type = (if length (transcodingOptions raw) \<noteq> 0 then ''VideoJob'' else ''TestJob''),
      job_id = jobId raw,
      job_broadcaster = broadcaster raw,
      job_profiles = map transformProfile (transcodingOptions raw),
      job_stream = streamId raw,
      job_transcoder = transcoder raw,
      job_live = JUndefined,
      job_url = JUndefined\<rparr>"

subsection \<open>Collaborators\<close>

text \<open>
  The RPC client, the HTTP client and \<^verbatim>\<open>Url.resolve\<close> of the Node library are not
  part of the repository; their answers are parameters of the model. An \<open>error\<close> is
  the value of a rejected promise or of a thrown exception: \<open>Rejection\<close> for the two
  clients, \<open>URIError\<close> for an exception of \<^verbatim>\<open>Url.resolve\<close>. The resolvers never
  look into an error, so the exceptions of \<^verbatim>\<open>Url.resolve\<close> are not told apart.
\<close>

datatype error = Rejection string | URIError

datatype fetch_result = Response int | Rejected error

record job_filters =
  filter_broadcaster :: "string option"

record livepeer_rpc =
  getJob :: "int \<Rightarrow> error + RawJobRecord"
  getJobs :: "job_filters \<Rightarrow> error + RawJobRecord list"

text \<open>
  \<^verbatim>\<open>Url.resolve\<close>: base first, relative reference second; \<open>None\<close> when it throws.
\<close>

type_synonym url_resolve = "string \<Rightarrow> string \<Rightarrow> string option"

text \<open>
  The network: the answer to the \<open>n\<close>-th request of the resolver's life (counted
  from 0) for a given address, so that the same address may answer differently at
  different times. \<open>Response\<close> carries the status of a response, \<open>Rejected\<close> the
  error of a request that timed out or could not be transported.
\<close>

type_synonym network = "nat \<Rightarrow> string \<Rightarrow> fetch_result"

subsection \<open>Resolver state (line 291)\<close>

text \<open>
  \<open>DEAD_JOBS\<close> is the set created by \<^verbatim>\<open>createResolvers\<close>. \<open>probes\<close> is a log of
  the addresses passed to \<^verbatim>\<open>fetch\<close>, oldest first: the source keeps no such log, it is
  there so that the number of requests can be stated.
\<close>

record resolver_state =
  DEAD_JOBS :: "int set"
  probes :: "string list"

definition createResolvers :: resolver_state where
  "createResolvers = \<lparr>DEAD_JOBS = {}, probes = []\<rparr>"

definition fetch :: "network \<Rightarrow> string \<Rightarrow> resolver_state \<Rightarrow> fetch_result \<times> resolver_state" where
  "fetch net videoUrl s = (net (length (probes s)) videoUrl, s\<lparr>probes := probes s @ [videoUrl]\<rparr>)"

subsection \<open>Stream URL resolver (lines 343-346)\<close>

text \<open>
  \<^verbatim>\<open>streamRootUrl || ''\<close>: an absent root (and an empty one) reads as the empty string.
\<close>

definition root_or_empty :: "string option \<Rightarrow> string" where
  "root_or_empty streamRootUrl = (case streamRootUrl of None \<Rightarrow> [] | Some r \<Rightarrow> r)"

text \<open>
  The resolver returns a string, or throws what \<^verbatim>\<open>Url.resolve\<close> throws.
\<close>

definition url :: "url_resolve \<Rightarrow> NormalizedJob \<Rightarrow> string option \<Rightarrow> error + string" where
  "url resolve job streamRootUrl =
     (case job_url job of
        JStr u \<Rightarrow> Inr u
      | _ \<Rightarrow>
          (case resolve (root_or_empty streamRootUrl) (job_stream job @ ''.m3u8'') of
             None \<Rightarrow> Inl URIError
           | Some address \<Rightarrow> Inr address))"

subsection \<open>Liveness resolver (lines 325-342)\<close>

text \<open>
  The resolver is an asynchronous function with one \<^verbatim>\<open>await\<close>. \<open>live_start\<close> is
  the code up to that point. It returns at once (\<open>Settled\<close>) for a boolean
  \<^verbatim>\<open>live\<close>, for an id in \<open>DEAD_JOBS\<close>, and when the derivation of the address
  throws: that happens inside the \<^verbatim>\<open>try\<close>, so the \<^verbatim>\<open>catch\<close> block runs, with no
  request made. Otherwise it has called \<^verbatim>\<open>fetch\<close> and waits for its outcome
  (\<open>Awaiting\<close>). \<open>live_finish\<close> is the code after the \<^verbatim>\<open>await\<close>: the comparison
  of the status, or the \<^verbatim>\<open>catch\<close> block for a rejected request. The promise of the
  resolver is \<open>Inr\<close> a boolean when it fulfils and would be \<open>Inl\<close> an error if it
  rejected.
\<close>

datatype live_call = Settled bool | Awaiting fetch_result

definition live_start ::
  "url_resolve \<Rightarrow> network \<Rightarrow> NormalizedJob \<Rightarrow> string option \<Rightarrow> resolver_state
     \<Rightarrow> live_call \<times> resolver_state" where
  "live_start resolve net job streamRootUrl s =
     (case job_live job of
        JBool b \<Rightarrow> (Settled b, s)
      | _ \<Rightarrow>
          if job_id job \<in> DEAD_JOBS s then (Settled False, s)
          else (case url resolve job streamRootUrl of
                  Inl err \<Rightarrow> (Settled False, s\<lparr>DEAD_JOBS := insert (job_id job) (DEAD_JOBS s)\<rparr>)
                | Inr videoUrl \<Rightarrow>
                    (case fetch net videoUrl s of (res, s') \<Rightarrow> (Awaiting res, s'))))"

definition live_finish :: "int \<Rightarrow> live_call \<Rightarrow> resolver_state \<Rightarrow> (error + bool) \<times> resolver_state" where
  "live_finish i call s =
     (case call of
        Settled b \<Rightarrow> (Inr b, s)
      | Awaiting (Response status) \<Rightarrow> (Inr (status = 200), s)
      | Awaiting (Rejected err) \<Rightarrow> (Inr False, s\<lparr>DEAD_JOBS := insert i (DEAD_JOBS s)\<rparr>))"

definition live ::
  "url_resolve \<Rightarrow> network \<Rightarrow> NormalizedJob \<Rightarrow> string option \<Rightarrow> resolver_state
     \<Rightarrow> (error + bool) \<times> resolver_state" where
  "live resolve net job streamRootUrl s =
     (case live_start resolve net job streamRootUrl s of
        (call, s') \<Rightarrow> live_finish (job_id job) call s')"

subsection \<open>Query dispatcher (lines 295-317)\<close>

definition job :: "livepeer_rpc \<Rightarrow> int \<Rightarrow> error + NormalizedJob" where
  "job rpc i = (case getJob rpc i of Inl err \<Rightarrow> Inl err | Inr raw \<Rightarrow> Inr (transformJob raw))"

record jobs_args =
  dead :: "bool option"
  streamRootUrl :: "string option"
  filters :: job_filters

text \<open>
  The callback mapped over the normalized jobs is asynchronous too. \<open>job_start\<close> is
  what one call of it does to the state before it first waits: nothing for a test
  job, whose \<^verbatim>\<open>live\<close> is the constant \<^verbatim>\<open>false\<close>, and the start of the liveness
  resolver for any other job. \<^verbatim>\<open>map\<close> runs these starts one after the other, in the
  order of the list, before any request is answered.
\<close>

definition job_start ::
  "url_resolve \<Rightarrow> network \<Rightarrow> string option \<Rightarrow> NormalizedJob \<Rightarrow> resolver_state
     \<Rightarrow> live_call \<times> resolver_state" where
  "job_start resolve net root j s =
     (if job_type j = ''TestJob'' then (Settled False, s)
      else live_start resolve net j root s)"

fun start_all ::
  "url_resolve \<Rightarrow> network \<Rightarrow> string option \<Rightarrow> NormalizedJob list \<Rightarrow> resolver_state
     \<Rightarrow> live_call list \<times> resolver_state" where
  "start_all resolve net root [] s = ([], s)"
| "start_all resolve net root (j # js) s =
     (case job_start resolve net root j s of
        (call, s1) \<Rightarrow>
          (case start_all resolve net root js s1 of
             (calls, s2) \<Rightarrow> (call # calls, s2)))"

text \<open>
  The answers then arrive and each waiting call runs to its end. The only effect of
  an end is an insertion into \<open>DEAD_JOBS\<close>, so the order of arrival does not show;
  the model takes the order of the list.
\<close>

fun finish_all ::
  "(NormalizedJob \<times> live_call) list \<Rightarrow> resolver_state \<Rightarrow> (error + bool) list \<times> resolver_state" where
  "finish_all [] s = ([], s)"
| "finish_all ((j, call) # rest) s =
     (case live_finish (job_id j) call s of
        (outcome, s1) \<Rightarrow>
          (case finish_all rest s1 of
             (outcomes, s2) \<Rightarrow> (outcome # outcomes, s2)))"

text \<open>
  The rest of the callback (lines 303-313): with the outcome of \<^verbatim>\<open>live\<close> it derives
  the address, outside any \<^verbatim>\<open>try\<close>, and builds the object of the result. An
  exception of the derivation rejects the promise of the callback.
\<close>

definition job_end ::
  "url_resolve \<Rightarrow> string option \<Rightarrow> NormalizedJob \<Rightarrow> error + bool \<Rightarrow> error + NormalizedJob" where
  "job_end resolve root j outcome =
     (case outcome of
        Inl err \<Rightarrow> Inl err
      | Inr b \<Rightarrow>
          (case url resolve j root of
             Inl err \<Rightarrow> Inl err
           | Inr address \<Rightarrow> Inr (j\<lparr>job_live := JBool b, job_url := JStr address\<rparr>)))"

text \<open>
  \<^verbatim>\<open>Promise.all\<close>: the values in the order of the list, or a rejection. The calls
  whose requests are under way still run to their end when the query rejects, so the
  state is the one after all ends in both cases.
\<close>

fun promise_all :: "(error + 'a) list \<Rightarrow> error + 'a list" where
  "promise_all [] = Inr []"
| "promise_all (Inl err # rest) = Inl err"
| "promise_all (Inr v # rest) =
     (case promise_all rest of Inl err \<Rightarrow> Inl err | Inr vs \<Rightarrow> Inr (v # vs))"

definition jobs ::
  "url_resolve \<Rightarrow> network \<Rightarrow> livepeer_rpc \<Rightarrow> jobs_args \<Rightarrow> resolver_state
     \<Rightarrow> (error + NormalizedJob list) \<times> resolver_state" where
  "jobs resolve net rpc args s =
     (case getJobs rpc (filters args) of
        Inl err \<Rightarrow> (Inl err, s)
      | Inr results \<Rightarrow>
          (let normalized = map transformJob results in
           case start_all resolve net (streamRootUrl args) normalized s of
             (calls, s1) \<Rightarrow>
               (case finish_all (zip normalized calls) s1 of
                  (outcomes, s2) \<Rightarrow>
                    (case promise_all (map2 (job_end resolve (streamRootUrl args)) normalized outcomes) of
                       Inl err \<Rightarrow> (Inl err, s2)
                     | Inr found \<Rightarrow>
                         (Inr (if dead args = Some True then found
                               else filter (\<lambda>x. job_live x = JBool True) found), s2)))))"

text \<open>\<^verbatim>\<open>Job.type\<close>, the type resolver of the interface.\<close>

definition Job_type :: "NormalizedJob \<Rightarrow> string" where
  "Job_type x = job_type x"

subsection \<open>Sequences of operations on one resolver object\<close>

text \<open>
  One call of a resolver, with the RPC client as it answers at that moment. Calls
  are taken one after the other; two queries running at the same time are outside
  the model.
\<close>

datatype operation =
    Query_job livepeer_rpc int
  | Query_jobs livepeer_rpc jobs_args
  | VideoJob_live NormalizedJob "string option"
  | VideoJob_url NormalizedJob "string option"
  | Job_type_of NormalizedJob

fun perform :: "url_resolve \<Rightarrow> network \<Rightarrow> operation \<Rightarrow> resolver_state \<Rightarrow> resolver_state" where
  "perform resolve net (Query_job rpc i) s = s"
| "perform resolve net (Query_jobs rpc args) s = snd (jobs resolve net rpc args s)"
| "perform resolve net (VideoJob_live j root) s = snd (live resolve net j root s)"
| "perform resolve net (VideoJob_url j root) s = s"
| "perform resolve net (Job_type_of j) s = s"

subsection \<open>Relative reference resolution (RFC 3986, section 5)\<close>

text \<open>
  Modelled from the spec: \<^verbatim>\<open>Url.resolve\<close> belongs to the Node library and is missing
  from the source. The spec (section 4.3) gives it "standard URL-relative-resolution
  semantics (trailing slash handling per RFC 3986 relative reference resolution)".
  The definitions follow that document: the components of a reference as the
  expression of its appendix B splits them, the transformation of section 5.2.2
  with the merge of 5.2.3 and the removal of dot segments of 5.2.4, and the
  recomposition of 5.3.
\<close>

record uri_reference =
  uri_scheme :: "string option"
  uri_authority :: "string option"
  uri_path :: string
  uri_query :: "string option"
  uri_fragment :: "string option"

definition parse_reference :: "string \<Rightarrow> uri_reference" where
  "parse_reference ref =
     (let name = takeWhile (\<lambda>c. c \<notin> set '':/?#'') ref;
          has_scheme = (name \<noteq> [] \<and> take 1 (drop (length name) ref) = '':'');
          r1 = (if has_scheme then drop (length name + 1) ref else ref);
          has_authority = (take 2 r1 = ''//'');
          r2 = (if has_authority then dropWhile (\<lambda>c. c \<notin> set ''/?#'') (drop 2 r1) else r1);
          r3 = dropWhile (\<lambda>c. c \<notin> set ''?#'') r2;
          has_query = (take 1 r3 = ''?'');
          r4 = (if has_query then dropWhile (\<lambda>c. c \<noteq> CHR ''#'') (drop 1 r3) else r3)
      in \<lparr>uri_scheme = (if has_scheme then Some name else None),
          uri_authority =
            (if has_authority then Some (takeWhile (\<lambda>c. c \<notin> set ''/?#'') (drop 2 r1)) else None),
          uri_path = takeWhile (\<lambda>c. c \<notin> set ''?#'') r2,
          uri_query =
            (if has_query then Some (takeWhile (\<lambda>c. c \<noteq> CHR ''#'') (drop 1 r3)) else None),
          uri_fragment = (if take 1 r4 = ''#'' then Some (drop 1 r4) else None)\<rparr>)"

text \<open>The output buffer without its last segment and the slash before it.\<close>

definition remove_last_segment :: "string \<Rightarrow> string" where
  "remove_last_segment output = rev (drop 1 (dropWhile (\<lambda>c. c \<noteq> CHR ''/'') (rev output)))"

text \<open>The loop of section 5.2.4, steps A to E in that order.\<close>

function remove_dots :: "string \<Rightarrow> string \<Rightarrow> string" where
  "remove_dots input output =
     (if input = [] then output
      else if take 3 input = ''../'' then remove_dots (drop 3 input) output
      else if take 2 input = ''./'' then remove_dots (drop 2 input) output
      else if take 3 input = ''/./'' then remove_dots (drop 2 input) output
      else if input = ''/.'' then remove_dots ''/'' output
      else if take 4 input = ''/../'' then remove_dots (drop 3 input) (remove_last_segment output)
      else if input = ''/..'' then remove_dots ''/'' (remove_last_segment output)
      else if input = ''.'' \<or> input = ''..'' then remove_dots [] output
      else remove_dots
             (drop (length (take 1 input @ takeWhile (\<lambda>c. c \<noteq> CHR ''/'') (drop 1 input))) input)
             (output @ take 1 input @ takeWhile (\<lambda>c. c \<noteq> CHR ''/'') (drop 1 input)))"
  by pat_completeness auto
termination
  by (relation "measure (\<lambda>(input, output). length input)") auto

declare remove_dots.simps [simp del]

definition remove_dot_segments :: "string \<Rightarrow> string" where
  "remove_dot_segments path = remove_dots path []"

definition merge :: "uri_reference \<Rightarrow> string \<Rightarrow> string" where
  "merge base path =
     (if uri_authority base \<noteq> None \<and> uri_path base = [] then ''/'' @ path
      else rev (dropWhile (\<lambda>c. c \<noteq> CHR ''/'') (rev (uri_path base))) @ path)"

definition transform_reference :: "uri_reference \<Rightarrow> uri_reference \<Rightarrow> uri_reference" where
  "transform_reference base r =
     (if uri_scheme r \<noteq> None then
        \<lparr>uri_scheme = uri_scheme r, uri_authority = uri_authority r,
         uri_path = remove_dot_segments (uri_path r), uri_query = uri_query r,
         uri_fragment = uri_fragment r\<rparr>
      else if uri_authority r \<noteq> None then
        \<lparr>uri_scheme = uri_scheme base, uri_authority = uri_authority r,
         uri_path = remove_dot_segments (uri_path r), uri_query = uri_query r,
         uri_fragment = uri_fragment r\<rparr>
      else if uri_path r = [] then
        \<lparr>uri_scheme = uri_scheme base, uri_authority = uri_authority base,
         uri_path = uri_path base,
         uri_query = (if uri_query r \<noteq> None then uri_query r else uri_query base),
         uri_fragment = uri_fragment r\<rparr>
      else
        \<lparr>uri_scheme = uri_scheme base, uri_authority = uri_authority base,
         uri_path =
           (if take 1 (uri_path r) = ''/'' then remove_dot_segments (uri_path r)
            else remove_dot_segments (merge base (uri_path r))),
         uri_query = uri_query r,
         uri_fragment = uri_fragment r\<rparr>)"

definition recompose :: "uri_reference \<Rightarrow> string" where
  "recompose t =
     (case uri_scheme t of None \<Rightarrow> [] | Some x \<Rightarrow> x @ '':'') @
     (case uri_authority t of None \<Rightarrow> [] | Some x \<Rightarrow> ''//'' @ x) @
     uri_path t @
     (case uri_query t of None \<Rightarrow> [] | Some x \<Rightarrow> ''?'' @ x) @
     (case uri_fragment t of None \<Rightarrow> [] | Some x \<Rightarrow> ''#'' @ x)"

definition rfc3986_resolve :: "string \<Rightarrow> string \<Rightarrow> string" where
  "rfc3986_resolve base ref =
     recompose (transform_reference (parse_reference base) (parse_reference ref))"

text \<open>
  Modelled from the spec: \<^verbatim>\<open>Url.resolve\<close>, missing from the source, as the
  examples and the claim about the stream address take it. Where it returns, it
  returns the resolution above, as the spec says. It throws, as the parser of the
  Node library does, when the user information of a reference cannot be
  percent-decoded; of the undecodable strings the model has those with a percent
  sign that is not followed by two hexadecimal digits.
\<close>

fun malformed_escape :: "string \<Rightarrow> bool" where
  "malformed_escape [] = False"
| "malformed_escape (c # cs) =
     (if c = CHR ''%'' then
        \<not> (length cs \<ge> 2 \<and> set (take 2 cs) \<subseteq> set ''0123456789abcdefABCDEF'') \<or> malformed_escape cs
      else malformed_escape cs)"

definition undecodable_auth :: "string \<Rightarrow> bool" where
  "undecodable_auth ref =
     (case uri_authority (parse_reference ref) of
        None \<Rightarrow> False
      | Some a \<Rightarrow>
          CHR ''@'' \<in> set a \<and>
          malformed_escape (rev (drop 1 (dropWhile (\<lambda>c. c \<noteq> CHR ''@'') (rev a)))))"

definition Url_resolve :: url_resolve where
  "Url_resolve base ref =
     (if undecodable_auth base \<or> undecodable_auth ref then None
      else Some (rfc3986_resolve base ref))"

subsection \<open>Example data\<close>

text \<open>The raw jobs, the RPC client and the network of the examples.\<close>

definition profile_P1 :: transcoding_option where
  "profile_P1 = \<lparr>hash = ''h1'', opt_name = ''P1'', opt_bitrate = ''1000k'', opt_framerate = 30,
                 opt_resolution = ''1280x720''\<rparr>"

definition raw_s1 :: RawJobRecord where
  "raw_s1 = \<lparr>jobId = 1, streamId = ''s1'', transcodingOptions = [],
             transcoder = ''0xT'', broadcaster = ''0xB''\<rparr>"

definition raw_s2 :: RawJobRecord where
  "raw_s2 = \<lparr>jobId = 2, streamId = ''s2'', transcodingOptions = [profile_P1],
             transcoder = ''0xT'', broadcaster = ''0xB''\<rparr>"

definition raw_s3 :: RawJobRecord where
  "raw_s3 = \<lparr>jobId = 3, streamId = ''s3'', transcodingOptions = [profile_P1],
             transcoder = ''0xT'', broadcaster = ''0xB''\<rparr>"

definition raw_s4 :: RawJobRecord where
  "raw_s4 = \<lparr>jobId = 4, streamId = ''s4'', transcodingOptions = [profile_P1],
             transcoder = ''0xT'', broadcaster = ''0xB''\<rparr>"

definition scenario_rpc :: livepeer_rpc where
  "scenario_rpc =
     \<lparr>getJob = (\<lambda>i. if i = 1 then Inr raw_s1 else if i = 2 then Inr raw_s2
                    else if i = 3 then Inr raw_s3 else if i = 4 then Inr raw_s4
                    else Inl (Rejection ''no such job'')),
      getJobs = (\<lambda>f. Inr [raw_s1, raw_s2, raw_s3, raw_s4])\<rparr>"

definition scenario_network :: network where
  "scenario_network n address =
     (if address = ''http://root/s2.m3u8'' then Response 200
      else if address = ''http://root/s3.m3u8'' then Rejected (Rejection ''timeout'')
      else Response 404)"

definition scenario_args :: "bool option \<Rightarrow> string \<Rightarrow> jobs_args" where
  "scenario_args d root =
     \<lparr>dead = d, streamRootUrl = Some root, filters = \<lparr>filter_broadcaster = None\<rparr>\<rparr>"

section \<open>Auxiliary facts\<close>

subsection \<open>The resolution of references on the examples of RFC 3986, section 5.4\<close>

lemma rfc3986_examples:
  "map (rfc3986_resolve ''http://a/b/c/d;p?q'')
     [''g:h'', ''g'', ''./g'', ''g/'', ''/g'', ''//g'', ''?y'', ''g?y'', ''#s'', ''g#s'', '''',
      ''.'', ''./'', ''..'', ''../'', ''../g'', ''../..'', ''../../g'', ''../../../g'',
      ''/./g'', ''/../g'', ''g.'', ''..g'', ''./../g'', ''g/./h'', ''g/../h''] =
     [''g:h'', ''http://a/b/c/g'', ''http://a/b/c/g'', ''http://a/b/c/g/'', ''http://a/g'',
      ''http://g'', ''http://a/b/c/d;p?y'', ''http://a/b/c/g?y'', ''http://a/b/c/d;p?q#s'',
      ''http://a/b/c/g#s'', ''http://a/b/c/d;p?q'', ''http://a/b/c/'', ''http://a/b/c/'',
      ''http://a/b/'', ''http://a/b/'', ''http://a/b/g'', ''http://a/'', ''http://a/g'',
      ''http://a/g'', ''http://a/g'', ''http://a/g'', ''http://a/b/c/g.'', ''http://a/b/c/..g'',
      ''http://a/b/g'', ''http://a/b/c/g/h'', ''http://a/b/c/h'']"
  by code_simp

lemma rfc3986_root:
  "rfc3986_resolve ''http://root/'' ''s2.m3u8'' = ''http://root/s2.m3u8''"
  "rfc3986_resolve ''http://streams.livepeer.org'' ''s2.m3u8'' = ''http://streams.livepeer.org/s2.m3u8''"
  "rfc3986_resolve ''http://www.streambox.fr/playlists/x36xhzz/'' ''s2.m3u8'' =
     ''http://www.streambox.fr/playlists/x36xhzz/s2.m3u8''"
  by code_simp+

lemma parse_default_root:
  "uri_scheme (parse_reference ''http://streams.livepeer.org'') = Some ''http''"
  "uri_authority (parse_reference ''http://streams.livepeer.org'') = Some ''streams.livepeer.org''"
  "uri_path (parse_reference ''http://streams.livepeer.org'') = []"
  by code_simp+

lemma parse_segment:
  assumes "set seg \<inter> set '':/?#'' = {}"
  shows "parse_reference seg =
     \<lparr>uri_scheme = None, uri_authority = None, uri_path = seg, uri_query = None,
      uri_fragment = None\<rparr>"
proof -
  have a: "takeWhile (\<lambda>c. c \<notin> set '':/?#'') seg = seg"
    using assms by (subst takeWhile_eq_all_conv) auto
  have b: "takeWhile (\<lambda>c. c \<notin> set ''?#'') seg = seg"
    using assms by (subst takeWhile_eq_all_conv) auto
  have c: "dropWhile (\<lambda>c. c \<notin> set ''?#'') seg = []"
    using assms by auto
  have "CHR ''/'' \<notin> set seg"
    using assms by auto
  then have d: "take 2 seg \<noteq> ''//''"
    by (metis in_set_takeD list.set_intros(1))
  have q: "\<forall>x \<in> set seg. x \<noteq> CHR ''?'' \<and> x \<noteq> CHR ''#''"
    using assms by auto
  have c': "dropWhile (\<lambda>c. c \<noteq> CHR ''?'' \<and> c \<noteq> CHR ''#'') seg = []"
    using q by simp
  show ?thesis
    unfolding parse_reference_def Let_def a using d by (simp add: c' q)
qed

lemma remove_dots_segment:
  assumes "CHR ''/'' \<notin> set seg" and "5 \<le> length seg"
  shows "remove_dot_segments (CHR ''/'' # seg) = CHR ''/'' # seg"
proof -
  obtain c1 r1 where 1: "seg = c1 # r1"
    using assms(2) by (cases seg) auto
  obtain c2 r2 where 2: "r1 = c2 # r2"
    using assms(2) 1 by (cases r1) auto
  obtain c3 r3 where 3: "r2 = c3 # r3"
    using assms(2) 1 2 by (cases r2) auto
  have r3: "r3 \<noteq> []"
    using assms(2) 1 2 3 by auto
  have n: "c1 \<noteq> CHR ''/''" "c2 \<noteq> CHR ''/''" "c3 \<noteq> CHR ''/''"
    using assms(1) 1 2 3 by auto
  have t: "takeWhile (\<lambda>c. c \<noteq> CHR ''/'') r3 = r3"
    using assms(1) 1 2 3 by (subst takeWhile_eq_all_conv) auto
  have "remove_dots (CHR ''/'' # seg) [] = remove_dots [] (CHR ''/'' # seg)"
    by (subst remove_dots.simps) (simp add: 1 2 3 n t r3)
  also have "\<dots> = CHR ''/'' # seg"
    by (subst remove_dots.simps) simp
  finally show ?thesis
    by (simp add: remove_dot_segments_def)
qed

text \<open>
  The handling of the trailing slash: a base with an authority whose path is empty
  or the single slash, and a reference that is one plain path segment.
\<close>

lemma rfc3986_resolve_segment:
  assumes "set stream \<inter> set '':/?#'' = {}"
    and "uri_authority (parse_reference base) = Some a"
    and "uri_path (parse_reference base) = [] \<or> uri_path (parse_reference base) = ''/''"
  shows "rfc3986_resolve base (stream @ ''.m3u8'') =
     (case uri_scheme (parse_reference base) of None \<Rightarrow> [] | Some x \<Rightarrow> x @ '':'') @
     ''//'' @ a @ ''/'' @ stream @ ''.m3u8''"
proof -
  let ?seg = "stream @ ''.m3u8''"
  have s: "set ?seg \<inter> set '':/?#'' = {}"
    using assms(1) by auto
  have p: "parse_reference ?seg =
     \<lparr>uri_scheme = None, uri_authority = None, uri_path = ?seg, uri_query = None,
      uri_fragment = None\<rparr>"
    using s by (rule parse_segment)
  have ns: "CHR ''/'' \<notin> set ?seg"
    using assms(1) by auto
  have ne: "?seg \<noteq> []"
    by simp
  have t1: "take 1 ?seg \<noteq> ''/''"
    using ns by (metis in_set_takeD list.set_intros(1))
  have m: "merge (parse_reference base) ?seg = CHR ''/'' # ?seg"
    using assms(2,3) by (auto simp: merge_def)
  have r: "remove_dot_segments (CHR ''/'' # ?seg) = CHR ''/'' # ?seg"
    using ns by (rule remove_dots_segment) simp
  have "transform_reference (parse_reference base) (parse_reference ?seg) =
      \<lparr>uri_scheme = uri_scheme (parse_reference base), uri_authority = Some a,
       uri_path = CHR ''/'' # ?seg, uri_query = None, uri_fragment = None\<rparr>"
    unfolding p transform_reference_def using ne t1 assms(2) by (simp add: m r)
  then show ?thesis
    by (simp add: rfc3986_resolve_def recompose_def)
qed

lemma Url_resolve_root:
  "Url_resolve ''http://root/'' ''s1.m3u8'' = Some ''http://root/s1.m3u8''"
  "Url_resolve ''http://root/'' ''s2.m3u8'' = Some ''http://root/s2.m3u8''"
  "Url_resolve ''http://root/'' ''s3.m3u8'' = Some ''http://root/s3.m3u8''"
  "Url_resolve ''http://root/'' ''s4.m3u8'' = Some ''http://root/s4.m3u8''"
  by code_simp+

lemma Url_resolve_throws_all:
  "Url_resolve ''http://%zz@root/'' ''s1.m3u8'' = None"
  "Url_resolve ''http://%zz@root/'' ''s2.m3u8'' = None"
  "Url_resolve ''http://%zz@root/'' ''s3.m3u8'' = None"
  "Url_resolve ''http://%zz@root/'' ''s4.m3u8'' = None"
  by code_simp+

subsection \<open>The two type tests\<close>

lemma typeof_boolean: "typeof v = ''boolean'' \<longleftrightarrow> (\<exists>b. v = JBool b)"
  by (cases v) simp_all

lemma typeof_string: "typeof v = ''string'' \<longleftrightarrow> (\<exists>u. v = JStr u)"
  by (cases v) simp_all

subsection \<open>One liveness call\<close>

lemma live_start_not_boolean:
  "typeof (job_live j) \<noteq> ''boolean'' \<Longrightarrow>
   live_start resolve net j root s =
     (if job_id j \<in> DEAD_JOBS s then (Settled False, s)
      else (case url resolve j root of
              Inl err \<Rightarrow> (Settled False, s\<lparr>DEAD_JOBS := insert (job_id j) (DEAD_JOBS s)\<rparr>)
            | Inr a \<Rightarrow> (Awaiting (net (length (probes s)) a), s\<lparr>probes := probes s @ [a]\<rparr>)))"
  by (cases "job_live j") (simp_all add: live_start_def fetch_def split: sum.splits)

lemma live_start_DEAD_JOBS:
  "DEAD_JOBS s \<subseteq> DEAD_JOBS (snd (live_start resolve net j root s))"
  by (cases "job_live j") (auto simp: live_start_def fetch_def split: sum.splits)

lemma live_finish_DEAD_JOBS:
  "DEAD_JOBS s \<subseteq> DEAD_JOBS (snd (live_finish i call s))"
  by (auto simp: live_finish_def split: live_call.splits fetch_result.splits)

lemma live_finish_probes:
  "probes (snd (live_finish i call s)) = probes s"
  by (auto simp: live_finish_def split: live_call.splits fetch_result.splits)

lemma live_finish_outcome:
  "fst (live_finish i call s) =
     Inr (case call of
            Settled b \<Rightarrow> b
          | Awaiting (Response status) \<Rightarrow> status = 200
          | Awaiting (Rejected err) \<Rightarrow> False)"
  by (auto simp: live_finish_def split: live_call.splits fetch_result.splits)

lemma live_DEAD_JOBS:
  "DEAD_JOBS s \<subseteq> DEAD_JOBS (snd (live resolve net j root s))"
proof -
  obtain call s1 where st: "live_start resolve net j root s = (call, s1)"
    by (cases "live_start resolve net j root s")
  have "DEAD_JOBS s \<subseteq> DEAD_JOBS s1"
    using live_start_DEAD_JOBS [of s resolve net j root] st by simp
  also have "\<dots> \<subseteq> DEAD_JOBS (snd (live_finish (job_id j) call s1))"
    by (rule live_finish_DEAD_JOBS)
  finally show ?thesis
    by (simp add: live_def st)
qed

text \<open>
  What the liveness resolver returns for a job without a boolean \<^verbatim>\<open>live\<close> whose
  address can be derived: true exactly when the id is not in the set of dead jobs and
  the request is answered with status 200.
\<close>

lemma live_value:
  assumes "typeof (job_live j) \<noteq> ''boolean''" and "url resolve j root = Inr a"
  shows "fst (live resolve net j root s) =
     Inr (job_id j \<notin> DEAD_JOBS s \<and> net (length (probes s)) a = Response 200)"
  using assms
  by (auto simp: live_def live_start_not_boolean live_finish_def split: fetch_result.splits)

subsection \<open>The batch: starts, ends and the promises of the callbacks\<close>

lemma job_start_DEAD_JOBS:
  "DEAD_JOBS s \<subseteq> DEAD_JOBS (snd (job_start resolve net root j s))"
  by (simp add: job_start_def live_start_DEAD_JOBS)

lemma job_start_TestJob:
  "job_type j = ''TestJob'' \<Longrightarrow> job_start resolve net root j s = (Settled False, s)"
  by (simp add: job_start_def)

text \<open>One start makes no request, or one request for a job that is not a test job.\<close>

lemma job_start_probes:
  "probes (snd (job_start resolve net root j s)) = probes s \<or>
   (job_type j \<noteq> ''TestJob'' \<and>
    (\<exists>a. url resolve j root = Inr a \<and>
         probes (snd (job_start resolve net root j s)) = probes s @ [a]))"
  by (cases "job_live j")
    (auto simp: job_start_def live_start_def fetch_def split: sum.splits)

text \<open>A start at which the address can be derived, for a job as the normalizer leaves it.\<close>

lemma job_start_derivable:
  assumes "job_live j = JUndefined" and "url resolve j root = Inr a"
  shows "job_start resolve net root j s =
     (if job_type j \<noteq> ''TestJob'' \<and> job_id j \<notin> DEAD_JOBS s
      then (Awaiting (net (length (probes s)) a), s\<lparr>probes := probes s @ [a]\<rparr>)
      else (Settled False, s))"
  using assms by (simp add: job_start_def live_start_def fetch_def)

lemma start_all_DEAD_JOBS:
  "DEAD_JOBS s \<subseteq> DEAD_JOBS (snd (start_all resolve net root js s))"
proof (induction js arbitrary: s)
  case Nil
  show ?case by simp
next
  case (Cons j js)
  obtain call s1 where a: "job_start resolve net root j s = (call, s1)"
    by (cases "job_start resolve net root j s")
  obtain calls s2 where b: "start_all resolve net root js s1 = (calls, s2)"
    by (cases "start_all resolve net root js s1")
  have "DEAD_JOBS s \<subseteq> DEAD_JOBS s1"
    using job_start_DEAD_JOBS [of s resolve net root j] a by simp
  also have "\<dots> \<subseteq> DEAD_JOBS s2"
    using Cons.IH [of s1] b by simp
  finally show ?case
    by (simp add: a b)
qed

lemma start_all_length:
  "length (fst (start_all resolve net root js s)) = length js"
proof (induction js arbitrary: s)
  case Nil
  show ?case by simp
next
  case (Cons j js)
  obtain call s1 where a: "job_start resolve net root j s = (call, s1)"
    by (cases "job_start resolve net root j s")
  obtain calls s2 where b: "start_all resolve net root js s1 = (calls, s2)"
    by (cases "start_all resolve net root js s1")
  have "length calls = length js"
    using Cons.IH [of s1] b by simp
  then show ?case
    by (simp add: a b)
qed

lemma start_all_TestJob:
  "i < length js \<Longrightarrow> job_type (js ! i) = ''TestJob'' \<Longrightarrow>
   fst (start_all resolve net root js s) ! i = Settled False"
proof (induction js arbitrary: s i)
  case Nil
  then show ?case by simp
next
  case (Cons j js)
  obtain call s1 where a: "job_start resolve net root j s = (call, s1)"
    by (cases "job_start resolve net root j s")
  obtain calls s2 where b: "start_all resolve net root js s1 = (calls, s2)"
    by (cases "start_all resolve net root js s1")
  show ?case
  proof (cases i)
    case 0
    then have "job_type j = ''TestJob''"
      using Cons.prems by simp
    then have "call = Settled False"
      using job_start_TestJob [of j resolve net root s] a by simp
    then show ?thesis
      by (simp add: a b 0)
  next
    case (Suc k)
    then have "k < length js" "job_type (js ! k) = ''TestJob''"
      using Cons.prems by simp_all
    then have "calls ! k = Settled False"
      using Cons.IH [of k s1] b by simp
    then show ?thesis
      by (simp add: a b Suc)
  qed
qed

text \<open>
  The requests of the starts are those of some of the jobs that are not test jobs, in
  the order of the list.
\<close>

lemma start_all_probes_subseq:
  "\<exists>ks ps. subseq ks (filter (\<lambda>j. job_type j \<noteq> ''TestJob'') js) \<and>
           map (\<lambda>j. url resolve j root) ks = map Inr ps \<and>
           probes (snd (start_all resolve net root js s)) = probes s @ ps"
proof (induction js arbitrary: s)
  case Nil
  show ?case by simp
next
  case (Cons j js)
  obtain call s1 where a: "job_start resolve net root j s = (call, s1)"
    by (cases "job_start resolve net root j s")
  obtain calls s2 where b: "start_all resolve net root js s1 = (calls, s2)"
    by (cases "start_all resolve net root js s1")
  obtain ks ps where
    k: "subseq ks (filter (\<lambda>j. job_type j \<noteq> ''TestJob'') js)" and
    m: "map (\<lambda>j. url resolve j root) ks = map Inr ps" and
    p: "probes s2 = probes s1 @ ps"
    using Cons.IH [of s1] b by auto
  have s2: "snd (start_all resolve net root (j # js) s) = s2"
    by (simp add: a b)
  consider (same) "probes s1 = probes s"
    | (asked) x where "job_type j \<noteq> ''TestJob''" "url resolve j root = Inr x"
        "probes s1 = probes s @ [x]"
    using job_start_probes [of resolve net root j s] a by auto
  then show ?case
  proof cases
    case same
    have "subseq ks (filter (\<lambda>j. job_type j \<noteq> ''TestJob'') (j # js))"
      using k by (auto intro: list_emb_Cons)
    moreover have "probes s2 = probes s @ ps"
      using p same by simp
    ultimately show ?thesis
      unfolding s2 using m by blast
  next
    case asked
    have "subseq (j # ks) (filter (\<lambda>j. job_type j \<noteq> ''TestJob'') (j # js))"
      using k asked(1) by simp
    moreover have "map (\<lambda>j. url resolve j root) (j # ks) = map Inr (x # ps)"
      using m asked(2) by simp
    moreover have "probes s2 = probes s @ (x # ps)"
      using p asked(3) by simp
    ultimately show ?thesis
      unfolding s2 by blast
  qed
qed

text \<open>
  When every address can be derived, the starts leave \<open>DEAD_JOBS\<close> alone, and the
  \<open>i\<close>-th start makes its request after those of the jobs before it.
\<close>

lemma start_all_derivable:
  assumes "\<forall>j \<in> set js. job_live j = JUndefined \<and> (\<exists>a. url resolve j root = Inr a)"
    and "DEAD_JOBS s = D"
  shows "\<exists>ps. DEAD_JOBS (snd (start_all resolve net root js s)) = D \<and>
           probes (snd (start_all resolve net root js s)) = probes s @ ps \<and>
           map Inr ps =
             map (\<lambda>j. url resolve j root)
               (filter (\<lambda>j. job_type j \<noteq> ''TestJob'' \<and> job_id j \<notin> D) js)"
  using assms
proof (induction js arbitrary: s)
  case Nil
  then show ?case by simp
next
  case (Cons j js)
  obtain a where a: "url resolve j root = Inr a" and l: "job_live j = JUndefined"
    using Cons.prems(1) by auto
  let ?s1 = "snd (job_start resolve net root j s)"
  have st: "job_start resolve net root j s =
     (if job_type j \<noteq> ''TestJob'' \<and> job_id j \<notin> D
      then (Awaiting (net (length (probes s)) a), s\<lparr>probes := probes s @ [a]\<rparr>)
      else (Settled False, s))"
    using job_start_derivable [OF l a, of net s] Cons.prems(2) by simp
  have d1: "DEAD_JOBS ?s1 = D"
    using st Cons.prems(2) by simp
  have rest: "\<forall>j \<in> set js. job_live j = JUndefined \<and> (\<exists>a. url resolve j root = Inr a)"
    using Cons.prems(1) by simp
  obtain ps where
    ih1: "DEAD_JOBS (snd (start_all resolve net root js ?s1)) = D" and
    ih2: "probes (snd (start_all resolve net root js ?s1)) = probes ?s1 @ ps" and
    ih3: "map Inr ps = map (\<lambda>j. url resolve j root)
               (filter (\<lambda>j. job_type j \<noteq> ''TestJob'' \<and> job_id j \<notin> D) js)"
    using Cons.IH [OF rest d1] by blast
  have whole: "snd (start_all resolve net root (j # js) s) = snd (start_all resolve net root js ?s1)"
    by (simp split: prod.splits)
  show ?case
  proof (cases "job_type j \<noteq> ''TestJob'' \<and> job_id j \<notin> D")
    case True
    then have "probes ?s1 = probes s @ [a]"
      using st by simp
    then have "probes (snd (start_all resolve net root js ?s1)) = probes s @ (a # ps)"
      using ih2 by simp
    moreover have "map Inr (a # ps) = map (\<lambda>j. url resolve j root)
               (filter (\<lambda>j. job_type j \<noteq> ''TestJob'' \<and> job_id j \<notin> D) (j # js))"
      using True ih3 a by simp
    ultimately show ?thesis
      unfolding whole using ih1 by blast
  next
    case False
    then have "?s1 = s"
      using st by auto
    then have "probes (snd (start_all resolve net root js ?s1)) = probes s @ ps"
      using ih2 by simp
    moreover have "map Inr ps = map (\<lambda>j. url resolve j root)
               (filter (\<lambda>j. job_type j \<noteq> ''TestJob'' \<and> job_id j \<notin> D) (j # js))"
      using False ih3 by auto
    ultimately show ?thesis
      unfolding whole using ih1 by blast
  qed
qed

lemma start_all_derivable_nth:
  assumes "\<forall>j \<in> set js. job_live j = JUndefined \<and> (\<exists>a. url resolve j root = Inr a)"
    and "DEAD_JOBS s = D" and "i < length js" and "url resolve (js ! i) root = Inr a"
  shows "fst (start_all resolve net root js s) ! i =
     (if job_type (js ! i) \<noteq> ''TestJob'' \<and> job_id (js ! i) \<notin> D
      then Awaiting (net (length (probes s) +
             length (filter (\<lambda>j. job_type j \<noteq> ''TestJob'' \<and> job_id j \<notin> D) (take i js))) a)
      else Settled False)"
  using assms
proof (induction js arbitrary: s i)
  case Nil
  then show ?case by simp
next
  case (Cons j js)
  obtain a0 where a0: "url resolve j root = Inr a0" and l: "job_live j = JUndefined"
    using Cons.prems(1) by auto
  let ?s1 = "snd (job_start resolve net root j s)"
  have st: "job_start resolve net root j s =
     (if job_type j \<noteq> ''TestJob'' \<and> job_id j \<notin> D
      then (Awaiting (net (length (probes s)) a0), s\<lparr>probes := probes s @ [a0]\<rparr>)
      else (Settled False, s))"
    using job_start_derivable [OF l a0, of net s] Cons.prems(2) by simp
  have d1: "DEAD_JOBS ?s1 = D"
    using st Cons.prems(2) by simp
  have rest: "\<forall>j \<in> set js. job_live j = JUndefined \<and> (\<exists>a. url resolve j root = Inr a)"
    using Cons.prems(1) by simp
  show ?case
  proof (cases i)
    case 0
    then have "a = a0"
      using Cons.prems(4) a0 by simp
    then show ?thesis
      using 0 st by (simp split: prod.splits)
  next
    case (Suc k)
    then have k: "k < length js" and u: "url resolve (js ! k) root = Inr a"
      using Cons.prems(3,4) by simp_all
    have nth: "fst (start_all resolve net root (j # js) s) ! i =
        fst (start_all resolve net root js ?s1) ! k"
      using Suc by (simp split: prod.splits)
    have pl: "length (probes ?s1) =
        length (probes s) + (if job_type j \<noteq> ''TestJob'' \<and> job_id j \<notin> D then 1 else 0)"
      using st by simp
    show ?thesis
      unfolding nth using Cons.IH [OF rest d1 k u] pl Suc by simp
  qed
qed

lemma finish_all_DEAD_JOBS:
  "DEAD_JOBS s \<subseteq> DEAD_JOBS (snd (finish_all xs s))"
proof (induction xs arbitrary: s)
  case Nil
  show ?case by simp
next
  case (Cons x xs)
  obtain j call where x: "x = (j, call)" by (cases x)
  obtain outcome s1 where a: "live_finish (job_id j) call s = (outcome, s1)"
    by (cases "live_finish (job_id j) call s")
  obtain outcomes s2 where b: "finish_all xs s1 = (outcomes, s2)"
    by (cases "finish_all xs s1")
  have "DEAD_JOBS s \<subseteq> DEAD_JOBS s1"
    using live_finish_DEAD_JOBS [of s "job_id j" call] a by simp
  also have "\<dots> \<subseteq> DEAD_JOBS s2"
    using Cons.IH [of s1] b by simp
  finally show ?case
    by (simp add: x a b)
qed

lemma finish_all_probes:
  "probes (snd (finish_all xs s)) = probes s"
proof (induction xs arbitrary: s)
  case Nil
  show ?case by simp
next
  case (Cons x xs)
  obtain j call where x: "x = (j, call)" by (cases x)
  obtain outcome s1 where a: "live_finish (job_id j) call s = (outcome, s1)"
    by (cases "live_finish (job_id j) call s")
  obtain outcomes s2 where b: "finish_all xs s1 = (outcomes, s2)"
    by (cases "finish_all xs s1")
  have "probes s1 = probes s"
    using live_finish_probes [of "job_id j" call s] a by simp
  moreover have "probes s2 = probes s1"
    using Cons.IH [of s1] b by simp
  ultimately show ?case
    by (simp add: x a b)
qed

text \<open>The outcome of an end does not depend on the state, and it is never a rejection.\<close>

lemma finish_all_outcomes:
  "fst (finish_all xs s) =
     map (\<lambda>x. Inr (case snd x of
                     Settled b \<Rightarrow> b
                   | Awaiting (Response status) \<Rightarrow> status = 200
                   | Awaiting (Rejected err) \<Rightarrow> False)) xs"
proof (induction xs arbitrary: s)
  case Nil
  show ?case by simp
next
  case (Cons x xs)
  obtain j call where x: "x = (j, call)" by (cases x)
  obtain outcome s1 where a: "live_finish (job_id j) call s = (outcome, s1)"
    by (cases "live_finish (job_id j) call s")
  obtain outcomes s2 where b: "finish_all xs s1 = (outcomes, s2)"
    by (cases "finish_all xs s1")
  have "outcome = Inr (case call of
                     Settled b \<Rightarrow> b
                   | Awaiting (Response status) \<Rightarrow> status = 200
                   | Awaiting (Rejected err) \<Rightarrow> False)"
    using live_finish_outcome [of "job_id j" call s] a by simp
  moreover have "outcomes = map (\<lambda>x. Inr (case snd x of
                     Settled b \<Rightarrow> b
                   | Awaiting (Response status) \<Rightarrow> status = 200
                   | Awaiting (Rejected err) \<Rightarrow> False)) xs"
    using Cons.IH [of s1] b by simp
  ultimately show ?case
    by (simp add: x a b)
qed

lemma promise_all_fulfilled: "promise_all (map Inr vs) = Inr vs"
  by (induction vs) simp_all

lemma promise_all_Inr:
  "promise_all xs = Inr vs \<Longrightarrow> xs = map Inr vs"
proof (induction xs arbitrary: vs)
  case Nil
  then show ?case by simp
next
  case (Cons x xs)
  show ?case
  proof (cases x)
    case (Inl err)
    then show ?thesis
      using Cons.prems by simp
  next
    case (Inr v)
    then obtain ws where w: "promise_all xs = Inr ws" and vs: "vs = v # ws"
      using Cons.prems by (auto split: sum.splits)
    then show ?thesis
      using Cons.IH [OF w] Inr by simp
  qed
qed

lemma promise_all_rejected:
  "Inl e \<in> set xs \<Longrightarrow> \<exists>err. promise_all xs = Inl err"
proof (induction xs)
  case Nil
  then show ?case by simp
next
  case (Cons x xs)
  show ?case
  proof (cases x)
    case (Inl err)
    then show ?thesis by simp
  next
    case (Inr v)
    then have "Inl e \<in> set xs"
      using Cons.prems by auto
    then obtain err where "promise_all xs = Inl err"
      using Cons.IH by blast
    then show ?thesis
      using Inr by simp
  qed
qed

lemma all_fulfilled:
  "\<forall>x \<in> set xs. \<exists>v. x = Inr v \<Longrightarrow> \<exists>vs. xs = map Inr vs"
proof (induction xs)
  case Nil
  show ?case by simp
next
  case (Cons x xs)
  obtain v where v: "x = Inr v"
    using Cons.prems by auto
  obtain vs where vs: "xs = map Inr vs"
    using Cons.IH Cons.prems by auto
  show ?case
    unfolding v vs by (rule exI [of _ "v # vs"]) simp
qed

lemma transformJob_undecorated:
  "job_live (transformJob raw) = JUndefined \<and> job_url (transformJob raw) = JUndefined"
  by (simp add: transformJob_def)

text \<open>The batch query unfolded: what it returns and the state it leaves.\<close>

lemma jobs_unfold:
  assumes "getJobs rpc (filters args) = Inr results"
  shows "\<exists>calls s1.
           start_all resolve net (streamRootUrl args) (map transformJob results) s = (calls, s1) \<and>
           length calls = length results \<and>
           jobs resolve net rpc args s =
             (case promise_all (map2 (job_end resolve (streamRootUrl args)) (map transformJob results)
                     (fst (finish_all (zip (map transformJob results) calls) s1))) of
                Inl err \<Rightarrow> (Inl err, snd (finish_all (zip (map transformJob results) calls) s1))
              | Inr found \<Rightarrow>
                  (Inr (if dead args = Some True then found
                        else filter (\<lambda>x. job_live x = JBool True) found),
                   snd (finish_all (zip (map transformJob results) calls) s1)))"
proof -
  let ?js = "map transformJob results"
  obtain calls s1 where a: "start_all resolve net (streamRootUrl args) ?js s = (calls, s1)"
    by (cases "start_all resolve net (streamRootUrl args) ?js s")
  have lc: "length calls = length results"
    using start_all_length [of resolve net "streamRootUrl args" ?js s] a by simp
  have "jobs resolve net rpc args s =
             (case promise_all (map2 (job_end resolve (streamRootUrl args)) ?js
                     (fst (finish_all (zip ?js calls) s1))) of
                Inl err \<Rightarrow> (Inl err, snd (finish_all (zip ?js calls) s1))
              | Inr found \<Rightarrow>
                  (Inr (if dead args = Some True then found
                        else filter (\<lambda>x. job_live x = JBool True) found),
                   snd (finish_all (zip ?js calls) s1)))"
    by (simp add: jobs_def Let_def assms a split: prod.splits sum.splits)
  then show ?thesis
    using a lc by blast
qed

lemma jobs_state:
  assumes "getJobs rpc (filters args) = Inr results"
  shows "snd (jobs resolve net rpc args s) =
     snd (finish_all
       (zip (map transformJob results)
          (fst (start_all resolve net (streamRootUrl args) (map transformJob results) s)))
       (snd (start_all resolve net (streamRootUrl args) (map transformJob results) s)))"
  by (simp add: jobs_def Let_def assms split: prod.splits sum.splits)

text \<open>The promises of the callbacks, one by one.\<close>

lemma jobs_callbacks:
  assumes lc: "length calls = length js" and i: "i < length js"
  shows "map2 (job_end resolve root) js (fst (finish_all (zip js calls) s1)) ! i =
     (case url resolve (js ! i) root of
        Inl err \<Rightarrow> Inl err
      | Inr a \<Rightarrow>
          Inr ((js ! i)\<lparr>job_live := JBool (case calls ! i of
                                             Settled b \<Rightarrow> b
                                           | Awaiting (Response status) \<Rightarrow> status = 200
                                           | Awaiting (Rejected err) \<Rightarrow> False),
                       job_url := JStr a\<rparr>))"
  using lc i by (simp add: finish_all_outcomes job_end_def)

lemma jobs_callbacks_length:
  "length calls = length js \<Longrightarrow>
   length (map2 (job_end resolve root) js (fst (finish_all (zip js calls) s1))) = length js"
  by (simp add: finish_all_outcomes)

subsection \<open>The set of dead jobs only grows\<close>

lemma jobs_DEAD_JOBS:
  "DEAD_JOBS s \<subseteq> DEAD_JOBS (snd (jobs resolve net rpc args s))"
proof (cases "getJobs rpc (filters args)")
  case (Inl err)
  then show ?thesis
    by (simp add: jobs_def)
next
  case (Inr results)
  let ?js = "map transformJob results"
  let ?st = "start_all resolve net (streamRootUrl args) ?js s"
  have "DEAD_JOBS s \<subseteq> DEAD_JOBS (snd ?st)"
    by (rule start_all_DEAD_JOBS)
  also have "\<dots> \<subseteq> DEAD_JOBS (snd (finish_all (zip ?js (fst ?st)) (snd ?st)))"
    by (rule finish_all_DEAD_JOBS)
  finally show ?thesis
    by (simp add: jobs_state [OF Inr])
qed

lemma perform_DEAD_JOBS:
  "DEAD_JOBS s \<subseteq> DEAD_JOBS (perform resolve net op s)"
  by (cases op) (simp_all add: live_DEAD_JOBS jobs_DEAD_JOBS)

lemma fold_perform_DEAD_JOBS:
  "DEAD_JOBS s \<subseteq> DEAD_JOBS (fold (perform resolve net) ops s)"
proof (induction ops arbitrary: s)
  case Nil
  show ?case by simp
next
  case (Cons op ops)
  have "DEAD_JOBS s \<subseteq> DEAD_JOBS (perform resolve net op s)"
    by (rule perform_DEAD_JOBS)
  also have "\<dots> \<subseteq> DEAD_JOBS (fold (perform resolve net) ops (perform resolve net op s))"
    by (rule Cons.IH)
  finally show ?case by simp
qed

subsection \<open>The examples evaluated\<close>

lemma scenario_jobs:
  "job_type (transformJob raw_s1) = ''TestJob''"
  "job_type (transformJob raw_s2) = ''VideoJob''"
  "job_type (transformJob raw_s3) = ''VideoJob''"
  "job_type (transformJob raw_s4) = ''VideoJob''"
  "job_id (transformJob raw_s1) = 1"
  "job_id (transformJob raw_s2) = 2"
  "job_id (transformJob raw_s3) = 3"
  "job_id (transformJob raw_s4) = 4"
  "job_live (transformJob raw) = JUndefined"
  "job_url (transformJob raw) = JUndefined"
  by (simp_all add: transformJob_def raw_s1_def raw_s2_def raw_s3_def raw_s4_def)

lemma scenario_url:
  "url Url_resolve (transformJob raw_s1) (Some ''http://root/'') = Inr ''http://root/s1.m3u8''"
  "url Url_resolve (transformJob raw_s2) (Some ''http://root/'') = Inr ''http://root/s2.m3u8''"
  "url Url_resolve (transformJob raw_s3) (Some ''http://root/'') = Inr ''http://root/s3.m3u8''"
  "url Url_resolve (transformJob raw_s4) (Some ''http://root/'') = Inr ''http://root/s4.m3u8''"
  by (simp_all add: url_def transformJob_def raw_s1_def raw_s2_def raw_s3_def raw_s4_def
      root_or_empty_def Url_resolve_root)

lemma scenario_url_throws:
  "url Url_resolve (transformJob raw_s1) (Some ''http://%zz@root/'') = Inl URIError"
  "url Url_resolve (transformJob raw_s2) (Some ''http://%zz@root/'') = Inl URIError"
  "url Url_resolve (transformJob raw_s3) (Some ''http://%zz@root/'') = Inl URIError"
  "url Url_resolve (transformJob raw_s4) (Some ''http://%zz@root/'') = Inl URIError"
  by (simp_all add: url_def transformJob_def raw_s1_def raw_s2_def raw_s3_def raw_s4_def
      root_or_empty_def Url_resolve_throws_all)

lemma scenario_getJobs:
  "getJobs scenario_rpc (filters (scenario_args d root)) = Inr [raw_s1, raw_s2, raw_s3, raw_s4]"
  by (simp add: scenario_rpc_def)

lemma scenario_args_fields:
  "dead (scenario_args d root) = d"
  "streamRootUrl (scenario_args d root) = Some root"
  by (simp_all add: scenario_args_def)

text \<open>The batch evaluated at a root on which every address can be derived.\<close>

lemma jobs_good_root:
  "\<exists>out.
     jobs Url_resolve scenario_network scenario_rpc (scenario_args d ''http://root/'') createResolvers =
       (Inr out,
        \<lparr>DEAD_JOBS = {3},
         probes = [''http://root/s2.m3u8'', ''http://root/s3.m3u8'', ''http://root/s4.m3u8'']\<rparr>)"
  by (simp add: jobs_def Let_def scenario_getJobs scenario_args_fields job_start_def
      live_start_def live_finish_def job_end_def fetch_def scenario_jobs scenario_url
      createResolvers_def scenario_network_def)

text \<open>
  The batch evaluated at a root on which \<^verbatim>\<open>Url.resolve\<close> throws: the liveness
  resolver catches the exception for each of the three video jobs and caches their
  ids, and the derivation of the address at line 310 rejects the query.
\<close>

lemma jobs_bad_root:
  "jobs Url_resolve scenario_network scenario_rpc (scenario_args d ''http://%zz@root/'')
     createResolvers = (Inl URIError, \<lparr>DEAD_JOBS = {2, 3, 4}, probes = []\<rparr>)"
  by (simp add: jobs_def Let_def scenario_getJobs scenario_args_fields job_start_def
      live_start_def live_finish_def job_end_def scenario_jobs scenario_url_throws
      createResolvers_def insert_commute)

section \<open>The batch query\<close>

text \<open>
  Claim C1, as amended. Take any list of raw jobs the RPC client returns. If the
  stream address of every normalized job can be derived, the batch query with
  \<^verbatim>\<open>dead\<close> true returns every normalized job, in the order of the RPC client's
  list, each with its address as \<^verbatim>\<open>url\<close> and its derived liveness as \<^verbatim>\<open>live\<close>.
  The derived liveness is false for a test job and is otherwise what the liveness
  resolver returns: true exactly when the id is not in the set of dead jobs at the
  start of the batch and the request for the job, made after the requests for the
  jobs before it, is answered with status 200. With \<^verbatim>\<open>dead\<close> not true the query
  returns, from that same list and in the same order, exactly the entries whose
  \<^verbatim>\<open>live\<close> is the boolean true, so that its output is a subsequence of the
  normalized jobs; both leave the same state. If the address of some normalized job
  cannot be derived, because \<^verbatim>\<open>Url.resolve\<close> throws, the query rejects: line 310
  derives the address outside any \<^verbatim>\<open>try\<close>. The claim as stated has the query return
  a list for every list of the RPC client.
\<close>

theorem jobs_filter_order:
  assumes "getJobs rpc (filters args) = Inr results"
  shows
    "((\<forall>j \<in> set (map transformJob results). \<exists>a. url resolve j (streamRootUrl args) = Inr a) \<longrightarrow>
      (\<exists>found s'.
         jobs resolve net rpc (args\<lparr>dead := Some True\<rparr>) s = (Inr found, s') \<and>
         length found = length results \<and>
         (\<forall>i < length results. \<forall>a.
            url resolve (transformJob (results ! i)) (streamRootUrl args) = Inr a \<longrightarrow>
            found ! i =
              (transformJob (results ! i))
                \<lparr>job_live := JBool
                   (job_type (transformJob (results ! i)) \<noteq> ''TestJob'' \<and>
                    job_id (transformJob (results ! i)) \<notin> DEAD_JOBS s \<and>
                    net (length (probes s) +
                         length (filter (\<lambda>j. job_type j \<noteq> ''TestJob'' \<and> job_id j \<notin> DEAD_JOBS s)
                                   (take i (map transformJob results)))) a = Response 200),
                 job_url := JStr a\<rparr>) \<and>
         (dead args = Some True \<longrightarrow> jobs resolve net rpc args s = (Inr found, s')) \<and>
         (dead args \<noteq> Some True \<longrightarrow>
            jobs resolve net rpc args s =
              (Inr (filter (\<lambda>x. job_live x = JBool True) found), s') \<and>
            subseq (map (\<lambda>x. x\<lparr>job_live := JUndefined, job_url := JUndefined\<rparr>)
                     (filter (\<lambda>x. job_live x = JBool True) found))
                   (map transformJob results)))) \<and>
     ((\<exists>j \<in> set (map transformJob results). \<exists>err. url resolve j (streamRootUrl args) = Inl err) \<longrightarrow>
      (\<exists>err s'. jobs resolve net rpc args s = (Inl err, s')))"
proof -
  let ?js = "map transformJob results"
  let ?root = "streamRootUrl args"
  let ?P = "\<lambda>j. job_type j \<noteq> ''TestJob'' \<and> job_id j \<notin> DEAD_JOBS s"
  let ?un = "\<lambda>x :: NormalizedJob. x\<lparr>job_live := JUndefined, job_url := JUndefined\<rparr>"
  obtain calls s1 where
    a: "start_all resolve net ?root ?js s = (calls, s1)" and
    lc: "length calls = length results" and
    j: "jobs resolve net rpc args s =
          (case promise_all (map2 (job_end resolve ?root) ?js (fst (finish_all (zip ?js calls) s1))) of
             Inl err \<Rightarrow> (Inl err, snd (finish_all (zip ?js calls) s1))
           | Inr found \<Rightarrow>
               (Inr (if dead args = Some True then found
                     else filter (\<lambda>x. job_live x = JBool True) found),
                snd (finish_all (zip ?js calls) s1)))"
    using jobs_unfold [OF assms, of resolve net s] by blast
  let ?cb = "map2 (job_end resolve ?root) ?js (fst (finish_all (zip ?js calls) s1))"
  let ?s2 = "snd (finish_all (zip ?js calls) s1)"
  have lcj: "length calls = length ?js"
    using lc by simp
  have cbl: "length ?cb = length results"
    using jobs_callbacks_length [OF lcj, of resolve ?root s1] by simp
  have g: "getJobs rpc (filters (args\<lparr>dead := Some True\<rparr>)) = Inr results"
    using assms by simp
  have jt: "jobs resolve net rpc (args\<lparr>dead := Some True\<rparr>) s =
          (case promise_all ?cb of
             Inl err \<Rightarrow> (Inl err, ?s2)
           | Inr found \<Rightarrow>
               (Inr (if dead (args\<lparr>dead := Some True\<rparr>) = Some True then found
                     else filter (\<lambda>x. job_live x = JBool True) found), ?s2))"
  proof -
    obtain calls' s1' where
      a': "start_all resolve net ?root ?js s = (calls', s1')" and
      j': "jobs resolve net rpc (args\<lparr>dead := Some True\<rparr>) s =
          (case promise_all (map2 (job_end resolve ?root) ?js (fst (finish_all (zip ?js calls') s1'))) of
             Inl err \<Rightarrow> (Inl err, snd (finish_all (zip ?js calls') s1'))
           | Inr found \<Rightarrow>
               (Inr (if dead (args\<lparr>dead := Some True\<rparr>) = Some True then found
                     else filter (\<lambda>x. job_live x = JBool True) found),
                snd (finish_all (zip ?js calls') s1')))"
      using jobs_unfold [OF g, of resolve net s] by auto
    have e: "calls' = calls" "s1' = s1"
      using a a' by simp_all
    show ?thesis
      using j' unfolding e .
  qed
  have fulfils: "\<exists>found s'.
         jobs resolve net rpc (args\<lparr>dead := Some True\<rparr>) s = (Inr found, s') \<and>
         length found = length results \<and>
         (\<forall>i < length results. \<forall>a.
            url resolve (transformJob (results ! i)) ?root = Inr a \<longrightarrow>
            found ! i =
              (transformJob (results ! i))
                \<lparr>job_live := JBool
                   (job_type (transformJob (results ! i)) \<noteq> ''TestJob'' \<and>
                    job_id (transformJob (results ! i)) \<notin> DEAD_JOBS s \<and>
                    net (length (probes s) + length (filter ?P (take i ?js))) a = Response 200),
                 job_url := JStr a\<rparr>) \<and>
         (dead args = Some True \<longrightarrow> jobs resolve net rpc args s = (Inr found, s')) \<and>
         (dead args \<noteq> Some True \<longrightarrow>
            jobs resolve net rpc args s =
              (Inr (filter (\<lambda>x. job_live x = JBool True) found), s') \<and>
            subseq (map ?un (filter (\<lambda>x. job_live x = JBool True) found)) ?js)"
    if der: "\<forall>j \<in> set ?js. \<exists>a. url resolve j ?root = Inr a"
  proof -
    have pre: "\<forall>j \<in> set ?js. job_live j = JUndefined \<and> (\<exists>a. url resolve j ?root = Inr a)"
      using der by (auto simp: transformJob_undecorated)
    have entry: "?cb ! i =
        Inr ((?js ! i)\<lparr>job_live := JBool (?P (?js ! i) \<and>
                 net (length (probes s) + length (filter ?P (take i ?js))) x = Response 200),
               job_url := JStr x\<rparr>)"
      if i: "i < length results" and x: "url resolve (?js ! i) ?root = Inr x" for i x
    proof -
      have ij: "i < length ?js"
        using i by simp
      have c: "calls ! i =
          (if ?P (?js ! i)
           then Awaiting (net (length (probes s) + length (filter ?P (take i ?js))) x)
           else Settled False)"
        using start_all_derivable_nth [OF pre refl ij x, of net s] a by simp
      have "(case calls ! i of
               Settled b \<Rightarrow> b
             | Awaiting (Response status) \<Rightarrow> status = 200
             | Awaiting (Rejected err) \<Rightarrow> False) =
          (?P (?js ! i) \<and>
           net (length (probes s) + length (filter ?P (take i ?js))) x = Response 200)"
        unfolding c by (auto split: fetch_result.splits)
      then show ?thesis
        using jobs_callbacks [OF lcj ij, of resolve ?root s1] x by simp
    qed
    have "\<forall>c \<in> set ?cb. \<exists>v. c = Inr v"
    proof
      fix c
      assume "c \<in> set ?cb"
      then obtain i where i: "i < length ?cb" "?cb ! i = c"
        unfolding in_set_conv_nth by blast
      then have ir: "i < length results"
        using cbl by simp
      then have "?js ! i \<in> set ?js"
        by simp
      then obtain x where "url resolve (?js ! i) ?root = Inr x"
        using der by blast
      then show "\<exists>v. c = Inr v"
        using entry [OF ir] i(2) by auto
    qed
    then obtain found where found: "?cb = map Inr found"
      using all_fulfilled by blast
    have lf: "length found = length results"
      using cbl found by (metis length_map)
    have pa: "promise_all ?cb = Inr found"
      using found by (simp only: promise_all_fulfilled)
    have nth: "found ! i =
        (transformJob (results ! i))\<lparr>job_live := JBool (?P (transformJob (results ! i)) \<and>
                 net (length (probes s) + length (filter ?P (take i ?js))) x = Response 200),
               job_url := JStr x\<rparr>"
      if i: "i < length results" and x: "url resolve (transformJob (results ! i)) ?root = Inr x"
      for i x
    proof -
      have "url resolve (?js ! i) ?root = Inr x"
        using i x by simp
      then have "?cb ! i =
        Inr ((?js ! i)\<lparr>job_live := JBool (?P (?js ! i) \<and>
                 net (length (probes s) + length (filter ?P (take i ?js))) x = Response 200),
               job_url := JStr x\<rparr>)"
        by (rule entry [OF i])
      moreover have "?cb ! i = Inr (found ! i)"
        using found i lf by (metis nth_map)
      ultimately show ?thesis
        using i by simp
    qed
    have un: "map ?un found = ?js"
    proof (rule nth_equalityI)
      show "length (map ?un found) = length ?js"
        using lf by simp
    next
      fix i
      assume "i < length (map ?un found)"
      then have i: "i < length results"
        using lf by simp
      then have "results ! i \<in> set results"
        by simp
      then have "transformJob (results ! i) \<in> set ?js"
        by simp
      then obtain x where x: "url resolve (transformJob (results ! i)) ?root = Inr x"
        using der by blast
      have "?un (found ! i) = transformJob (results ! i)"
        unfolding nth [OF i x] by (simp add: transformJob_def)
      then show "map ?un found ! i = ?js ! i"
        using i lf by simp
    qed
    have "subseq (filter (\<lambda>x. job_live x = JBool True) found) found"
      by simp
    then have "subseq (map ?un (filter (\<lambda>x. job_live x = JBool True) found)) (map ?un found)"
      by (rule subseq_map)
    then have sq: "subseq (map ?un (filter (\<lambda>x. job_live x = JBool True) found)) ?js"
      by (simp only: un)
    have t: "jobs resolve net rpc (args\<lparr>dead := Some True\<rparr>) s = (Inr found, ?s2)"
      using jt pa by simp
    have r: "jobs resolve net rpc args s =
        (Inr (if dead args = Some True then found
              else filter (\<lambda>x. job_live x = JBool True) found), ?s2)"
      using j pa by simp
    show ?thesis
    proof (intro exI conjI allI impI)
      show "jobs resolve net rpc (args\<lparr>dead := Some True\<rparr>) s = (Inr found, ?s2)"
        by (rule t)
      show "length found = length results"
        by (rule lf)
      show "found ! i =
          (transformJob (results ! i))
            \<lparr>job_live := JBool
               (job_type (transformJob (results ! i)) \<noteq> ''TestJob'' \<and>
                job_id (transformJob (results ! i)) \<notin> DEAD_JOBS s \<and>
                net (length (probes s) + length (filter ?P (take i ?js))) x = Response 200),
             job_url := JStr x\<rparr>"
        if "i < length results" and "url resolve (transformJob (results ! i)) ?root = Inr x"
        for i x
        using nth [OF that] by simp
      show "jobs resolve net rpc args s = (Inr found, ?s2)" if "dead args = Some True"
        using r that by simp
      show "jobs resolve net rpc args s =
          (Inr (filter (\<lambda>x. job_live x = JBool True) found), ?s2)" if "dead args \<noteq> Some True"
        using r that by simp
      show "subseq (map ?un (filter (\<lambda>x. job_live x = JBool True) found)) ?js"
        by (rule sq)
    qed
  qed
  have rejects: "\<exists>err s'. jobs resolve net rpc args s = (Inl err, s')"
    if thr: "\<exists>j \<in> set ?js. \<exists>err. url resolve j ?root = Inl err"
  proof -
    obtain j err where jm: "j \<in> set ?js" and je: "url resolve j ?root = Inl err"
      using thr by blast
    obtain i where i: "i < length ?js" and ji: "?js ! i = j"
      using jm unfolding in_set_conv_nth by blast
    have e: "url resolve (?js ! i) ?root = Inl err"
      using je ji by simp
    have "?cb ! i = Inl err"
      using jobs_callbacks [OF lcj i, of resolve ?root s1] e by simp
    moreover have "i < length ?cb"
      using i cbl by simp
    ultimately have "Inl err \<in> set ?cb"
      by (metis nth_mem)
    then obtain err' where "promise_all ?cb = Inl err'"
      using promise_all_rejected by blast
    then have "jobs resolve net rpc args s = (Inl err', ?s2)"
      using j by simp
    then show ?thesis by blast
  qed
  show ?thesis
    using fulfils rejects by blast
qed

theorem jobs_filter_order_witness:
  "getJobs scenario_rpc (filters (scenario_args None ''http://root/'')) =
     Inr [raw_s1, raw_s2, raw_s3, raw_s4] \<and>
   (\<exists>found s'.
      jobs Url_resolve scenario_network scenario_rpc
        ((scenario_args None ''http://root/'')\<lparr>dead := Some True\<rparr>) createResolvers = (Inr found, s') \<and>
      length found = 4 \<and>
      found ! 1 = (transformJob raw_s2)\<lparr>job_live := JBool True, job_url := JStr ''http://root/s2.m3u8''\<rparr> \<and>
      found ! 2 = (transformJob raw_s3)\<lparr>job_live := JBool False, job_url := JStr ''http://root/s3.m3u8''\<rparr> \<and>
      jobs Url_resolve scenario_network scenario_rpc (scenario_args None ''http://root/'')
        createResolvers = (Inr (filter (\<lambda>x. job_live x = JBool True) found), s')) \<and>
   (\<exists>err s'.
      jobs Url_resolve scenario_network scenario_rpc (scenario_args None ''http://%zz@root/'')
        createResolvers = (Inl err, s'))"
proof -
  let ?rs = "[raw_s1, raw_s2, raw_s3, raw_s4]"
  let ?good = "scenario_args None ''http://root/''"
  let ?bad = "scenario_args None ''http://%zz@root/''"
  have h: "getJobs scenario_rpc (filters ?good) = Inr ?rs"
    by (rule scenario_getJobs)
  have hb: "getJobs scenario_rpc (filters ?bad) = Inr ?rs"
    by (rule scenario_getJobs)
  have der: "\<forall>j \<in> set (map transformJob ?rs). \<exists>a. url Url_resolve j (streamRootUrl ?good) = Inr a"
    by (simp add: scenario_args_fields scenario_url)
  have thr: "\<exists>j \<in> set (map transformJob ?rs). \<exists>err. url Url_resolve j (streamRootUrl ?bad) = Inl err"
    by (simp add: scenario_args_fields scenario_url_throws)
  have d: "dead ?good \<noteq> Some True"
    by (simp add: scenario_args_fields)
  obtain found s' where
    t: "jobs Url_resolve scenario_network scenario_rpc (?good\<lparr>dead := Some True\<rparr>) createResolvers =
          (Inr found, s')" and
    l: "length found = length ?rs" and
    n: "\<forall>i < length ?rs. \<forall>a.
            url Url_resolve (transformJob (?rs ! i)) (streamRootUrl ?good) = Inr a \<longrightarrow>
            found ! i =
              (transformJob (?rs ! i))
                \<lparr>job_live := JBool
                   (job_type (transformJob (?rs ! i)) \<noteq> ''TestJob'' \<and>
                    job_id (transformJob (?rs ! i)) \<notin> DEAD_JOBS createResolvers \<and>
                    scenario_network (length (probes createResolvers) +
                         length (filter (\<lambda>j. job_type j \<noteq> ''TestJob'' \<and>
                                   job_id j \<notin> DEAD_JOBS createResolvers)
                                   (take i (map transformJob ?rs)))) a = Response 200),
                 job_url := JStr a\<rparr>" and
    f: "dead ?good \<noteq> Some True \<longrightarrow>
          jobs Url_resolve scenario_network scenario_rpc ?good createResolvers =
            (Inr (filter (\<lambda>x. job_live x = JBool True) found), s')"
    using jobs_filter_order [OF h, of Url_resolve scenario_network createResolvers] der by blast
  have n1: "found ! 1 =
      (transformJob raw_s2)\<lparr>job_live := JBool True, job_url := JStr ''http://root/s2.m3u8''\<rparr>"
    using n [rule_format, of 1 "''http://root/s2.m3u8''"]
    by (simp add: scenario_args_fields scenario_url scenario_jobs scenario_network_def
        createResolvers_def)
  have n2: "found ! 2 =
      (transformJob raw_s3)\<lparr>job_live := JBool False, job_url := JStr ''http://root/s3.m3u8''\<rparr>"
    using n [rule_format, of 2 "''http://root/s3.m3u8''"]
    by (simp add: scenario_args_fields scenario_url scenario_jobs scenario_network_def
        createResolvers_def)
  have rej: "\<exists>err s'.
      jobs Url_resolve scenario_network scenario_rpc ?bad createResolvers = (Inl err, s')"
    using jobs_filter_order [OF hb, of Url_resolve scenario_network createResolvers] thr by blast
  show ?thesis
    using h t l n1 n2 f d rej by auto
qed

text \<open>
  A root whose user information cannot be decoded: the query rejects, with
  \<^verbatim>\<open>dead\<close> absent and with \<^verbatim>\<open>dead\<close> true.
\<close>

theorem jobs_filter_order_counterexample:
  "getJobs scenario_rpc (filters (scenario_args None ''http://%zz@root/'')) =
     Inr [raw_s1, raw_s2, raw_s3, raw_s4] \<and>
   fst (jobs Url_resolve scenario_network scenario_rpc (scenario_args None ''http://%zz@root/'')
     createResolvers) = Inl URIError \<and>
   fst (jobs Url_resolve scenario_network scenario_rpc (scenario_args (Some True) ''http://%zz@root/'')
     createResolvers) = Inl URIError"
  by (simp add: scenario_getJobs jobs_bad_root)

text \<open>
  Claim C6. In a batch query no request is made for a job normalized as "TestJob":
  the start of the callback for a test job returns false and leaves the state as it
  is, and the requests of the batch are those of some of the jobs that are not test
  jobs, in the order of the list. When every address can be derived they are exactly
  those of the jobs that are not test jobs and whose id is not in the set of dead
  jobs when the batch starts. Whenever the query returns a list, every test job in
  it has \<^verbatim>\<open>live\<close> false, and with \<^verbatim>\<open>dead\<close> true every test job of the RPC
  client's list is in it, at its own position.
\<close>

theorem jobs_TestJob_no_probe:
  assumes "getJobs rpc (filters args) = Inr results"
  shows
    "(\<forall>j s0. job_type j = ''TestJob'' \<longrightarrow>
        job_start resolve net (streamRootUrl args) j s0 = (Settled False, s0)) \<and>
     (\<exists>ks ps.
        subseq ks (filter (\<lambda>j. job_type j \<noteq> ''TestJob'') (map transformJob results)) \<and>
        map (\<lambda>j. url resolve j (streamRootUrl args)) ks = map Inr ps \<and>
        probes (snd (jobs resolve net rpc args s)) = probes s @ ps) \<and>
     ((\<forall>j \<in> set (map transformJob results). \<exists>a. url resolve j (streamRootUrl args) = Inr a) \<longrightarrow>
      (\<exists>ps.
         probes (snd (jobs resolve net rpc args s)) = probes s @ ps \<and>
         map Inr ps =
           map (\<lambda>j. url resolve j (streamRootUrl args))
             (filter (\<lambda>j. job_type j \<noteq> ''TestJob'' \<and> job_id j \<notin> DEAD_JOBS s)
                (map transformJob results)))) \<and>
     (\<forall>out. fst (jobs resolve net rpc args s) = Inr out \<longrightarrow>
        (\<forall>x \<in> set out. job_type x = ''TestJob'' \<longrightarrow> job_live x = JBool False) \<and>
        (dead args = Some True \<longrightarrow>
           length out = length results \<and>
           (\<forall>i < length results. job_type (transformJob (results ! i)) = ''TestJob'' \<longrightarrow>
              job_type (out ! i) = ''TestJob'' \<and> job_id (out ! i) = jobId (results ! i) \<and>
              job_live (out ! i) = JBool False)))"
proof -
  let ?js = "map transformJob results"
  let ?root = "streamRootUrl args"
  let ?st = "start_all resolve net ?root ?js s"
  have state: "probes (snd (jobs resolve net rpc args s)) = probes (snd ?st)"
    by (simp add: jobs_state [OF assms] finish_all_probes)
  have one: "\<forall>j s0. job_type j = ''TestJob'' \<longrightarrow>
        job_start resolve net ?root j s0 = (Settled False, s0)"
    by (simp add: job_start_TestJob)
  have two: "\<exists>ks ps.
        subseq ks (filter (\<lambda>j. job_type j \<noteq> ''TestJob'') ?js) \<and>
        map (\<lambda>j. url resolve j ?root) ks = map Inr ps \<and>
        probes (snd (jobs resolve net rpc args s)) = probes s @ ps"
    unfolding state by (rule start_all_probes_subseq)
  have three: "\<exists>ps.
         probes (snd (jobs resolve net rpc args s)) = probes s @ ps \<and>
         map Inr ps =
           map (\<lambda>j. url resolve j ?root)
             (filter (\<lambda>j. job_type j \<noteq> ''TestJob'' \<and> job_id j \<notin> DEAD_JOBS s) ?js)"
    if der: "\<forall>j \<in> set ?js. \<exists>a. url resolve j ?root = Inr a"
  proof -
    have pre: "\<forall>j \<in> set ?js. job_live j = JUndefined \<and> (\<exists>a. url resolve j ?root = Inr a)"
      using der by (auto simp: transformJob_undecorated)
    show ?thesis
      unfolding state using start_all_derivable [OF pre refl, of net s] by blast
  qed
  obtain calls s1 where
    a: "?st = (calls, s1)" and
    lc: "length calls = length results" and
    j: "jobs resolve net rpc args s =
          (case promise_all (map2 (job_end resolve ?root) ?js (fst (finish_all (zip ?js calls) s1))) of
             Inl err \<Rightarrow> (Inl err, snd (finish_all (zip ?js calls) s1))
           | Inr found \<Rightarrow>
               (Inr (if dead args = Some True then found
                     else filter (\<lambda>x. job_live x = JBool True) found),
                snd (finish_all (zip ?js calls) s1)))"
    using jobs_unfold [OF assms, of resolve net s] by blast
  let ?cb = "map2 (job_end resolve ?root) ?js (fst (finish_all (zip ?js calls) s1))"
  have lcj: "length calls = length ?js"
    using lc by simp
  have cbl: "length ?cb = length results"
    using jobs_callbacks_length [OF lcj, of resolve ?root s1] by simp
  have four: "(\<forall>x \<in> set out. job_type x = ''TestJob'' \<longrightarrow> job_live x = JBool False) \<and>
        (dead args = Some True \<longrightarrow>
           length out = length results \<and>
           (\<forall>i < length results. job_type (transformJob (results ! i)) = ''TestJob'' \<longrightarrow>
              job_type (out ! i) = ''TestJob'' \<and> job_id (out ! i) = jobId (results ! i) \<and>
              job_live (out ! i) = JBool False))"
    if out: "fst (jobs resolve net rpc args s) = Inr out" for out
  proof -
    obtain found where pa: "promise_all ?cb = Inr found"
      using out j by (cases "promise_all ?cb") simp_all
    have o: "out = (if dead args = Some True then found
                   else filter (\<lambda>x. job_live x = JBool True) found)"
      using out j pa by simp
    have cb: "?cb = map Inr found"
      using pa by (rule promise_all_Inr)
    have lf: "length found = length results"
      using cbl cb by (metis length_map)
    have entry: "job_type (found ! i) = job_type (transformJob (results ! i)) \<and>
        job_id (found ! i) = jobId (results ! i) \<and>
        (job_type (transformJob (results ! i)) = ''TestJob'' \<longrightarrow> job_live (found ! i) = JBool False)"
      if i: "i < length results" for i
    proof -
      have ij: "i < length ?js"
        using i by simp
      have "?cb ! i = Inr (found ! i)"
        using cb i lf by (metis nth_map)
      then have c: "(case url resolve (?js ! i) ?root of
            Inl err \<Rightarrow> Inl err
          | Inr a \<Rightarrow>
              Inr ((?js ! i)\<lparr>job_live := JBool (case calls ! i of
                                             Settled b \<Rightarrow> b
                                           | Awaiting (Response status) \<Rightarrow> status = 200
                                           | Awaiting (Rejected err) \<Rightarrow> False),
                       job_url := JStr a\<rparr>)) = Inr (found ! i)"
        using jobs_callbacks [OF lcj ij, of resolve ?root s1] by simp
      then obtain x where f: "found ! i =
          (?js ! i)\<lparr>job_live := JBool (case calls ! i of
                                             Settled b \<Rightarrow> b
                                           | Awaiting (Response status) \<Rightarrow> status = 200
                                           | Awaiting (Rejected err) \<Rightarrow> False),
                       job_url := JStr x\<rparr>"
        by (cases "url resolve (?js ! i) ?root") (simp, metis sum.case(2) sum.inject(2))
      have t: "calls ! i = Settled False" if "job_type (?js ! i) = ''TestJob''"
        using start_all_TestJob [OF ij that, of resolve net ?root s] a by simp
      show ?thesis
        unfolding f using i t by (simp add: transformJob_def)
    qed
    have all: "job_live x = JBool False"
      if mem: "x \<in> set found" and ty: "job_type x = ''TestJob''" for x
    proof -
      obtain i where i: "i < length found" "found ! i = x"
        using mem unfolding in_set_conv_nth by blast
      then have ir: "i < length results"
        using lf by simp
      show ?thesis
        using entry [OF ir] i(2) ty by auto
    qed
    have "set out \<subseteq> set found"
      unfolding o by auto
    then have p1: "\<forall>x \<in> set out. job_type x = ''TestJob'' \<longrightarrow> job_live x = JBool False"
      using all by blast
    have p2: "length out = length results \<and>
           (\<forall>i < length results. job_type (transformJob (results ! i)) = ''TestJob'' \<longrightarrow>
              job_type (out ! i) = ''TestJob'' \<and> job_id (out ! i) = jobId (results ! i) \<and>
              job_live (out ! i) = JBool False)"
      if d: "dead args = Some True"
    proof -
      have "out = found"
        using o d by simp
      then show ?thesis
        using entry lf by presburger
    qed
    show ?thesis
      using p1 p2 by blast
  qed
  show ?thesis
    using one two three four by blast
qed

theorem jobs_TestJob_no_probe_witness:
  "getJobs scenario_rpc (filters (scenario_args (Some True) ''http://root/'')) =
     Inr [raw_s1, raw_s2, raw_s3, raw_s4] \<and>
   job_type (transformJob raw_s1) = ''TestJob'' \<and>
   (\<exists>out s'.
      jobs Url_resolve scenario_network scenario_rpc (scenario_args (Some True) ''http://root/'')
        createResolvers = (Inr out, s') \<and>
      probes s' = [''http://root/s2.m3u8'', ''http://root/s3.m3u8'', ''http://root/s4.m3u8''] \<and>
      job_type (out ! 0) = ''TestJob'' \<and> job_id (out ! 0) = 1 \<and> job_live (out ! 0) = JBool False)"
proof -
  let ?rs = "[raw_s1, raw_s2, raw_s3, raw_s4]"
  let ?args = "scenario_args (Some True) ''http://root/''"
  let ?run = "jobs Url_resolve scenario_network scenario_rpc ?args createResolvers"
  have h: "getJobs scenario_rpc (filters ?args) = Inr ?rs"
    by (rule scenario_getJobs)
  have der: "\<forall>j \<in> set (map transformJob ?rs). \<exists>a. url Url_resolve j (streamRootUrl ?args) = Inr a"
    by (simp add: scenario_args_fields scenario_url)
  have d: "dead ?args = Some True"
    by (simp add: scenario_args_fields)
  have t: "job_type (transformJob raw_s1) = ''TestJob''"
    by (rule scenario_jobs)
  note w = jobs_TestJob_no_probe [OF h, of Url_resolve scenario_network createResolvers]
  obtain out s' where r: "?run = (Inr out, s')"
    using jobs_good_root [of "Some True"] by blast
  obtain ps where
    p: "probes (snd ?run) = probes createResolvers @ ps" and
    m: "map Inr ps =
           map (\<lambda>j. url Url_resolve j (streamRootUrl ?args))
             (filter (\<lambda>j. job_type j \<noteq> ''TestJob'' \<and> job_id j \<notin> DEAD_JOBS createResolvers)
                (map transformJob ?rs))"
    using w der by blast
  have "map Inr ps =
      [Inr ''http://root/s2.m3u8'', Inr ''http://root/s3.m3u8'', Inr ''http://root/s4.m3u8'' :: error + string]"
    unfolding m
    by (simp add: scenario_args_fields scenario_url scenario_jobs createResolvers_def)
  then have ps: "ps = [''http://root/s2.m3u8'', ''http://root/s3.m3u8'', ''http://root/s4.m3u8'']"
    by auto
  have pr: "probes s' = [''http://root/s2.m3u8'', ''http://root/s3.m3u8'', ''http://root/s4.m3u8'']"
    using p r ps by (simp add: createResolvers_def)
  have "fst ?run = Inr out"
    using r by simp
  then have "\<forall>i < length ?rs. job_type (transformJob (?rs ! i)) = ''TestJob'' \<longrightarrow>
              job_type (out ! i) = ''TestJob'' \<and> job_id (out ! i) = jobId (?rs ! i) \<and>
              job_live (out ! i) = JBool False"
    using w d by blast
  then have "job_type (out ! 0) = ''TestJob'' \<and> job_id (out ! 0) = jobId raw_s1 \<and>
      job_live (out ! 0) = JBool False"
    using t by auto
  then have o: "job_type (out ! 0) = ''TestJob'' \<and> job_id (out ! 0) = 1 \<and>
      job_live (out ! 0) = JBool False"
    by (simp add: raw_s1_def)
  show ?thesis
    using h t r pr o by blast
qed

section \<open>The liveness resolver and the set of dead jobs\<close>

text \<open>
  Claim C2, as amended. Take a job without a precomputed boolean \<^verbatim>\<open>live\<close> whose id
  is not in the set of dead jobs. If the request is rejected (a timeout or a transport
  error), the resolver returns false, inserts the id into the set and surfaces no
  error. If the request is answered with a status other than 200, the resolver returns
  false and surfaces no error. The claim as stated also has the id inserted in the
  second case; the source inserts it in the \<^verbatim>\<open>catch\<close> block only, which a response
  with a status other than 200 does not reach. The \<^verbatim>\<open>catch\<close> block is also reached,
  with no request made, when the derivation of the address throws.
\<close>

theorem live_probe_failure:
  assumes "typeof (job_live j) \<noteq> ''boolean''" and "job_id j \<notin> DEAD_JOBS s"
  shows "(\<forall>a err. url resolve j root = Inr a \<and> net (length (probes s)) a = Rejected err \<longrightarrow>
            live resolve net j root s =
              (Inr False, s\<lparr>DEAD_JOBS := insert (job_id j) (DEAD_JOBS s),
                            probes := probes s @ [a]\<rparr>)) \<and>
         (\<forall>a status. url resolve j root = Inr a \<and> net (length (probes s)) a = Response status \<longrightarrow>
            status \<noteq> 200 \<longrightarrow> fst (live resolve net j root s) = Inr False) \<and>
         (\<forall>err. url resolve j root = Inl err \<longrightarrow>
            live resolve net j root s =
              (Inr False, s\<lparr>DEAD_JOBS := insert (job_id j) (DEAD_JOBS s)\<rparr>))"
  using assms by (simp add: live_def live_start_not_boolean live_finish_def)

theorem live_probe_failure_witness:
  "live Url_resolve scenario_network (transformJob raw_s3) (Some ''http://root/'') createResolvers =
     (Inr False, \<lparr>DEAD_JOBS = {3}, probes = [''http://root/s3.m3u8'']\<rparr>) \<and>
   fst (live Url_resolve scenario_network (transformJob raw_s4) (Some ''http://root/'') createResolvers) =
     Inr False \<and>
   live Url_resolve scenario_network (transformJob raw_s4) (Some ''http://%zz@root/'') createResolvers =
     (Inr False, \<lparr>DEAD_JOBS = {4}, probes = []\<rparr>)"
proof -
  have t3: "typeof (job_live (transformJob raw_s3)) \<noteq> ''boolean''"
    and t4: "typeof (job_live (transformJob raw_s4)) \<noteq> ''boolean''"
    by (simp_all add: scenario_jobs)
  have d3: "job_id (transformJob raw_s3) \<notin> DEAD_JOBS createResolvers"
    and d4: "job_id (transformJob raw_s4) \<notin> DEAD_JOBS createResolvers"
    by (simp_all add: createResolvers_def)
  show ?thesis
    using live_probe_failure [OF t3 d3, of Url_resolve "Some ''http://root/''" scenario_network]
      live_probe_failure [OF t4 d4, of Url_resolve "Some ''http://root/''" scenario_network]
      live_probe_failure [OF t4 d4, of Url_resolve "Some ''http://%zz@root/''" scenario_network]
    by (simp add: scenario_url scenario_url_throws scenario_jobs scenario_network_def
        createResolvers_def)
qed

text \<open>
  A response with status 404: the resolver returns without touching the set of dead jobs.
\<close>

theorem live_probe_failure_counterexample:
  "typeof (job_live (transformJob raw_s4)) \<noteq> ''boolean'' \<and>
   job_id (transformJob raw_s4) \<notin> DEAD_JOBS createResolvers \<and>
   url Url_resolve (transformJob raw_s4) (Some ''http://root/'') = Inr ''http://root/s4.m3u8'' \<and>
   scenario_network (length (probes createResolvers)) ''http://root/s4.m3u8'' = Response 404 \<and>
   job_id (transformJob raw_s4) \<notin>
     DEAD_JOBS (snd (live Url_resolve scenario_network (transformJob raw_s4)
       (Some ''http://root/'') createResolvers))"
  by (simp add: live_def live_start_def live_finish_def fetch_def scenario_url scenario_jobs
      createResolvers_def scenario_network_def)

text \<open>
  Claim C3, as amended. Once a job id is in the set of dead jobs it stays there through
  any sequence of operations, and every later liveness check for that id makes no
  request. The check returns false when the job carries no precomputed boolean
  \<^verbatim>\<open>live\<close>; when it carries one, the check returns that value, because the resolver
  tests for it before it looks into the set.
\<close>

theorem live_cached_dead:
  assumes "job_id j \<in> DEAD_JOBS s"
  shows "job_id j \<in> DEAD_JOBS (fold (perform resolve net) ops s) \<and>
         probes (snd (live resolve net j root (fold (perform resolve net) ops s))) =
           probes (fold (perform resolve net) ops s) \<and>
         (typeof (job_live j) \<noteq> ''boolean'' \<longrightarrow>
            live resolve net j root (fold (perform resolve net) ops s) =
              (Inr False, fold (perform resolve net) ops s)) \<and>
         (\<forall>b. job_live j = JBool b \<longrightarrow>
            live resolve net j root (fold (perform resolve net) ops s) =
              (Inr b, fold (perform resolve net) ops s))"
proof -
  let ?s = "fold (perform resolve net) ops s"
  have m: "job_id j \<in> DEAD_JOBS ?s"
    using assms fold_perform_DEAD_JOBS [of s resolve net ops] by blast
  have n: "typeof (job_live j) \<noteq> ''boolean'' \<Longrightarrow> live resolve net j root ?s = (Inr False, ?s)"
    using m by (simp add: live_def live_start_not_boolean live_finish_def)
  have b: "\<And>b. job_live j = JBool b \<Longrightarrow> live resolve net j root ?s = (Inr b, ?s)"
    by (simp add: live_def live_start_def live_finish_def)
  have "probes (snd (live resolve net j root ?s)) = probes ?s"
  proof (cases "typeof (job_live j) = ''boolean''")
    case True
    then obtain v where "job_live j = JBool v"
      by (auto simp: typeof_boolean)
    then show ?thesis by (simp add: b)
  next
    case False
    then show ?thesis by (simp add: n)
  qed
  then show ?thesis
    using m n b by blast
qed

theorem live_cached_dead_witness:
  "job_id (transformJob raw_s3) \<in> DEAD_JOBS \<lparr>DEAD_JOBS = {3}, probes = [''http://root/s3.m3u8'']\<rparr> \<and>
   typeof (job_live (transformJob raw_s3)) \<noteq> ''boolean'' \<and>
   live Url_resolve scenario_network (transformJob raw_s3) (Some ''http://other/'')
       (fold (perform Url_resolve scenario_network)
          [VideoJob_live (transformJob raw_s4) (Some ''http://root/'')]
          \<lparr>DEAD_JOBS = {3}, probes = [''http://root/s3.m3u8'']\<rparr>) =
     (Inr False,
      fold (perform Url_resolve scenario_network)
          [VideoJob_live (transformJob raw_s4) (Some ''http://root/'')]
          \<lparr>DEAD_JOBS = {3}, probes = [''http://root/s3.m3u8'']\<rparr>)"
proof -
  have h: "job_id (transformJob raw_s3) \<in> DEAD_JOBS \<lparr>DEAD_JOBS = {3}, probes = [''http://root/s3.m3u8'']\<rparr>"
    by (simp add: scenario_jobs)
  have t: "typeof (job_live (transformJob raw_s3)) \<noteq> ''boolean''"
    by (simp add: scenario_jobs)
  show ?thesis
    using h t live_cached_dead [OF h, of Url_resolve scenario_network
        "[VideoJob_live (transformJob raw_s4) (Some ''http://root/'')]" "Some ''http://other/''"]
    by blast
qed

text \<open>
  Job 3 is put into the set of dead jobs by a rejected request; a liveness check for
  the same id on a job object that carries \<^verbatim>\<open>live: true\<close> then returns true.
\<close>

theorem live_cached_dead_counterexample:
  "job_id ((transformJob raw_s3)\<lparr>job_live := JBool True\<rparr>) \<in>
     DEAD_JOBS (snd (live Url_resolve scenario_network (transformJob raw_s3)
       (Some ''http://root/'') createResolvers)) \<and>
   fst (live Url_resolve scenario_network ((transformJob raw_s3)\<lparr>job_live := JBool True\<rparr>)
     (Some ''http://root/'')
     (snd (live Url_resolve scenario_network (transformJob raw_s3)
       (Some ''http://root/'') createResolvers))) = Inr True"
  by (simp add: live_def live_start_def live_finish_def fetch_def scenario_url scenario_jobs
      createResolvers_def scenario_network_def)

text \<open>
  Claim C7. The set of dead jobs is empty when the resolvers are created; no operation
  removes an id from it, and neither does any sequence of operations: the set after is
  a superset of the set before.
\<close>

theorem DEAD_JOBS_monotonic:
  "DEAD_JOBS createResolvers = {} \<and>
   DEAD_JOBS s \<subseteq> DEAD_JOBS (perform resolve net op s) \<and>
   DEAD_JOBS s \<subseteq> DEAD_JOBS (fold (perform resolve net) ops s)"
  by (simp add: createResolvers_def perform_DEAD_JOBS fold_perform_DEAD_JOBS)

theorem DEAD_JOBS_monotonic_witness:
  "DEAD_JOBS createResolvers = {} \<and>
   DEAD_JOBS createResolvers \<subseteq>
     DEAD_JOBS (perform Url_resolve scenario_network
       (VideoJob_live (transformJob raw_s3) (Some ''http://root/'')) createResolvers) \<and>
   DEAD_JOBS \<lparr>DEAD_JOBS = {3}, probes = [''http://root/s3.m3u8'']\<rparr> \<subseteq>
     DEAD_JOBS (fold (perform Url_resolve scenario_network)
       [Query_jobs scenario_rpc (scenario_args None ''http://root/''),
        VideoJob_live (transformJob raw_s4) (Some ''http://%zz@root/''),
        Query_job scenario_rpc 3]
       \<lparr>DEAD_JOBS = {3}, probes = [''http://root/s3.m3u8'']\<rparr>)"
  using DEAD_JOBS_monotonic [of createResolvers Url_resolve scenario_network
      "VideoJob_live (transformJob raw_s3) (Some ''http://root/'')" "[]"]
    DEAD_JOBS_monotonic [of "\<lparr>DEAD_JOBS = {3}, probes = [''http://root/s3.m3u8'']\<rparr>"
      Url_resolve scenario_network "Job_type_of (transformJob raw_s3)"
      "[Query_jobs scenario_rpc (scenario_args None ''http://root/''),
        VideoJob_live (transformJob raw_s4) (Some ''http://%zz@root/''),
        Query_job scenario_rpc 3]"]
  by blast




section \<open>The normalizer\<close>

text \<open>
  Claim C4. Normalizing a raw job gives type "TestJob" exactly when the sequence of
  transcoding options is empty and "VideoJob" exactly when it is not; and the type
  of the normalized job is "TestJob" exactly when its list of profiles is empty.
\<close>

theorem transformJob_type:
  "(job_type (transformJob raw) = ''TestJob'' \<longleftrightarrow> transcodingOptions raw = []) \<and>
   (job_type (transformJob raw) = ''VideoJob'' \<longleftrightarrow> transcodingOptions raw \<noteq> []) \<and>
   (job_type (transformJob raw) = ''TestJob'' \<longleftrightarrow> job_profiles (transformJob raw) = [])"
  by (simp add: transformJob_def)

theorem transformJob_type_witness:
  "job_type (transformJob raw_s1) = ''TestJob'' \<and> transcodingOptions raw_s1 = [] \<and>
   job_type (transformJob raw_s2) = ''VideoJob'' \<and> transcodingOptions raw_s2 \<noteq> [] \<and>
   job_profiles (transformJob raw_s1) = []"
proof -
  have e: "transcodingOptions raw_s1 = []"
    by (simp add: raw_s1_def)
  have n: "transcodingOptions raw_s2 \<noteq> []"
    by (simp add: raw_s2_def)
  show ?thesis
    using e n transformJob_type [of raw_s1] transformJob_type [of raw_s2] by blast
qed

text \<open>
  Claim C8. Normalization produces one profile per transcoding option, in order; the
  \<^verbatim>\<open>id\<close> of each profile is the \<^verbatim>\<open>hash\<close> of its option, and the name, the
  bitrate, the framerate and the resolution are those of the option.
\<close>

theorem transformJob_profiles:
  "length (job_profiles (transformJob raw)) = length (transcodingOptions raw) \<and>
   (\<forall>i < length (transcodingOptions raw).
      vp_id (job_profiles (transformJob raw) ! i) = hash (transcodingOptions raw ! i) \<and>
      vp_name (job_profiles (transformJob raw) ! i) = opt_name (transcodingOptions raw ! i) \<and>
      vp_bitrate (job_profiles (transformJob raw) ! i) = opt_bitrate (transcodingOptions raw ! i) \<and>
      vp_framerate (job_profiles (transformJob raw) ! i) = opt_framerate (transcodingOptions raw ! i) \<and>
      vp_resolution (job_profiles (transformJob raw) ! i) = opt_resolution (transcodingOptions raw ! i))"
  by (simp add: transformJob_def transformProfile_def)

theorem transformJob_profiles_witness:
  "(0::nat) < length (transcodingOptions raw_s2) \<and>
   job_profiles (transformJob raw_s2) ! 0 =
     \<lparr>vp_id = ''h1'', vp_name = ''P1'', vp_bitrate = ''1000k'', vp_framerate = 30,
      vp_resolution = ''1280x720''\<rparr>"
proof -
  have i: "(0::nat) < length (transcodingOptions raw_s2)"
    by (simp add: raw_s2_def)
  have "vp_id (job_profiles (transformJob raw_s2) ! 0) = hash (transcodingOptions raw_s2 ! 0) \<and>
      vp_name (job_profiles (transformJob raw_s2) ! 0) = opt_name (transcodingOptions raw_s2 ! 0) \<and>
      vp_bitrate (job_profiles (transformJob raw_s2) ! 0) = opt_bitrate (transcodingOptions raw_s2 ! 0) \<and>
      vp_framerate (job_profiles (transformJob raw_s2) ! 0) =
        opt_framerate (transcodingOptions raw_s2 ! 0) \<and>
      vp_resolution (job_profiles (transformJob raw_s2) ! 0) =
        opt_resolution (transcodingOptions raw_s2 ! 0)"
    using transformJob_profiles [of raw_s2] i by blast
  then show ?thesis
    using i by (simp add: raw_s2_def profile_P1_def)
qed

section \<open>The stream address resolver\<close>

text \<open>
  Claim C5, as amended. If the job carries a string \<^verbatim>\<open>url\<close>, empty or not, the
  resolver returns it unchanged, whatever the root and whatever \<^verbatim>\<open>Url.resolve\<close>
  does. Otherwise it returns what \<^verbatim>\<open>Url.resolve\<close> makes of the root the caller
  supplied (the empty string when there is none) and the stream id followed by
  ".m3u8", and it throws when \<^verbatim>\<open>Url.resolve\<close> throws; with \<^verbatim>\<open>Url.resolve\<close> as
  the spec describes it, what it returns is the result of the relative reference
  resolution of RFC 3986, which for a root made of a scheme, an authority and at
  most a single slash is the root, a slash, the stream id and ".m3u8". The resolver
  neither reads nor changes the state, so it makes no request. The claim as stated sends the empty string down the second path,
  and has the resolver return on every root.
\<close>

theorem url_resolver:
  "(typeof (job_url j) = ''string'' \<longrightarrow>
      (\<exists>u. job_url j = JStr u \<and> (\<forall>resolve root'. url resolve j root' = Inr u))) \<and>
   (typeof (job_url j) \<noteq> ''string'' \<longrightarrow>
      (\<forall>resolve. url resolve j root =
         (case resolve (case root of None \<Rightarrow> [] | Some r \<Rightarrow> r) (job_stream j @ ''.m3u8'') of
            None \<Rightarrow> Inl URIError
          | Some a \<Rightarrow> Inr a)) \<and>
      (url Url_resolve j root =
         Inr (rfc3986_resolve (case root of None \<Rightarrow> [] | Some r \<Rightarrow> r) (job_stream j @ ''.m3u8'')) \<or>
       url Url_resolve j root = Inl URIError)) \<and>
   (\<forall>base a.
      set (job_stream j) \<inter> set '':/?#'' = {} \<and>
      uri_authority (parse_reference base) = Some a \<and>
      (uri_path (parse_reference base) = [] \<or> uri_path (parse_reference base) = ''/'') \<longrightarrow>
      rfc3986_resolve base (job_stream j @ ''.m3u8'') =
        (case uri_scheme (parse_reference base) of None \<Rightarrow> [] | Some x \<Rightarrow> x @ '':'') @
        ''//'' @ a @ ''/'' @ job_stream j @ ''.m3u8'')"
proof (intro conjI impI allI)
  assume "typeof (job_url j) = ''string''"
  then obtain u where u: "job_url j = JStr u"
    unfolding typeof_string by blast
  then have "\<forall>resolve root'. url resolve j root' = Inr u"
    by (simp add: url_def)
  then show "\<exists>u. job_url j = JStr u \<and> (\<forall>resolve root'. url resolve j root' = Inr u)"
    using u by blast
next
  fix resolve
  assume "typeof (job_url j) \<noteq> ''string''"
  then show "url resolve j root =
         (case resolve (case root of None \<Rightarrow> [] | Some r \<Rightarrow> r) (job_stream j @ ''.m3u8'') of
            None \<Rightarrow> Inl URIError
          | Some a \<Rightarrow> Inr a)"
    by (cases "job_url j") (simp_all add: url_def root_or_empty_def)
next
  assume "typeof (job_url j) \<noteq> ''string''"
  then show "url Url_resolve j root =
         Inr (rfc3986_resolve (case root of None \<Rightarrow> [] | Some r \<Rightarrow> r) (job_stream j @ ''.m3u8'')) \<or>
       url Url_resolve j root = Inl URIError"
    by (cases "job_url j") (simp_all add: url_def root_or_empty_def Url_resolve_def)
next
  fix base a
  assume "set (job_stream j) \<inter> set '':/?#'' = {} \<and>
      uri_authority (parse_reference base) = Some a \<and>
      (uri_path (parse_reference base) = [] \<or> uri_path (parse_reference base) = ''/'')"
  then show "rfc3986_resolve base (job_stream j @ ''.m3u8'') =
        (case uri_scheme (parse_reference base) of None \<Rightarrow> [] | Some x \<Rightarrow> x @ '':'') @
        ''//'' @ a @ ''/'' @ job_stream j @ ''.m3u8''"
    using rfc3986_resolve_segment by blast
qed

theorem url_resolver_witness:
  "typeof (job_url ((transformJob raw_s2)\<lparr>job_url := JStr ''http://cdn/x.m3u8''\<rparr>)) = ''string'' \<and>
   url Url_resolve ((transformJob raw_s2)\<lparr>job_url := JStr ''http://cdn/x.m3u8''\<rparr>)
     (Some ''http://root/'') = Inr ''http://cdn/x.m3u8'' \<and>
   typeof (job_url (transformJob raw_s2)) \<noteq> ''string'' \<and>
   url Url_resolve (transformJob raw_s2) (Some ''http://root/'') =
     Inr (rfc3986_resolve ''http://root/'' ''s2.m3u8'') \<and>
   rfc3986_resolve ''http://root/'' ''s2.m3u8'' = ''http://root/s2.m3u8'' \<and>
   set (job_stream (transformJob raw_s2)) \<inter> set '':/?#'' = {} \<and>
   rfc3986_resolve DEFAULT_STREAM_ROOT (job_stream (transformJob raw_s2) @ ''.m3u8'') =
     ''http://streams.livepeer.org/s2.m3u8''"
proof -
  have a: "typeof (job_url ((transformJob raw_s2)\<lparr>job_url := JStr ''http://cdn/x.m3u8''\<rparr>)) = ''string''"
    by simp
  have b: "typeof (job_url (transformJob raw_s2)) \<noteq> ''string''"
    by (simp add: scenario_jobs)
  have c: "url Url_resolve (transformJob raw_s2) (Some ''http://root/'') \<noteq> Inl URIError"
    by (simp add: scenario_url)
  have s: "job_stream (transformJob raw_s2) @ ''.m3u8'' = ''s2.m3u8''"
    by (simp add: transformJob_def raw_s2_def)
  have p: "set (job_stream (transformJob raw_s2)) \<inter> set '':/?#'' = {}"
    by (simp add: transformJob_def raw_s2_def)
  have first: "url Url_resolve ((transformJob raw_s2)\<lparr>job_url := JStr ''http://cdn/x.m3u8''\<rparr>)
     (Some ''http://root/'') = Inr ''http://cdn/x.m3u8''"
    using a url_resolver [of "(transformJob raw_s2)\<lparr>job_url := JStr ''http://cdn/x.m3u8''\<rparr>"
        "Some ''http://root/''"]
    by auto
  have second: "url Url_resolve (transformJob raw_s2) (Some ''http://root/'') =
     Inr (rfc3986_resolve ''http://root/'' ''s2.m3u8'')"
  proof -
    have "url Url_resolve (transformJob raw_s2) (Some ''http://root/'') =
         Inr (rfc3986_resolve (case Some ''http://root/'' of None \<Rightarrow> [] | Some r \<Rightarrow> r)
           (job_stream (transformJob raw_s2) @ ''.m3u8'')) \<or>
       url Url_resolve (transformJob raw_s2) (Some ''http://root/'') = Inl URIError"
      using b url_resolver [of "transformJob raw_s2" "Some ''http://root/''"] by blast
    then have "url Url_resolve (transformJob raw_s2) (Some ''http://root/'') =
         Inr (rfc3986_resolve (case Some ''http://root/'' of None \<Rightarrow> [] | Some r \<Rightarrow> r)
           (job_stream (transformJob raw_s2) @ ''.m3u8''))"
      using c by blast
    then show ?thesis
      unfolding s by simp
  qed
  have "rfc3986_resolve ''http://streams.livepeer.org'' (job_stream (transformJob raw_s2) @ ''.m3u8'') =
        (case uri_scheme (parse_reference ''http://streams.livepeer.org'') of
           None \<Rightarrow> [] | Some x \<Rightarrow> x @ '':'') @
        ''//'' @ ''streams.livepeer.org'' @ ''/'' @ job_stream (transformJob raw_s2) @ ''.m3u8''"
    using p parse_default_root(2,3) url_resolver [of "transformJob raw_s2" None] by blast
  then have third: "rfc3986_resolve DEFAULT_STREAM_ROOT (job_stream (transformJob raw_s2) @ ''.m3u8'') =
     ''http://streams.livepeer.org/s2.m3u8''"
    unfolding s by (simp add: parse_default_root DEFAULT_STREAM_ROOT_def)
  show ?thesis
    using a b first second third p rfc3986_root(1) by blast
qed

text \<open>
  A job whose \<^verbatim>\<open>url\<close> is the empty string: the resolver returns the empty string,
  not the address under the root. A root whose user information cannot be decoded:
  the resolver throws.
\<close>

theorem url_resolver_counterexample:
  "job_url ((transformJob raw_s2)\<lparr>job_url := JStr []\<rparr>) = JStr [] \<and>
   url Url_resolve ((transformJob raw_s2)\<lparr>job_url := JStr []\<rparr>) (Some ''http://root/'') = Inr [] \<and>
   rfc3986_resolve ''http://root/''
     (job_stream ((transformJob raw_s2)\<lparr>job_url := JStr []\<rparr>) @ ''.m3u8'') = ''http://root/s2.m3u8'' \<and>
   typeof (job_url (transformJob raw_s2)) \<noteq> ''string'' \<and>
   url Url_resolve (transformJob raw_s2) (Some ''http://%zz@root/'') = Inl URIError"
proof (intro conjI)
  show "job_url ((transformJob raw_s2)\<lparr>job_url := JStr []\<rparr>) = JStr []"
    by simp
  show "url Url_resolve ((transformJob raw_s2)\<lparr>job_url := JStr []\<rparr>) (Some ''http://root/'') = Inr []"
    by (simp add: url_def)
  show "rfc3986_resolve ''http://root/''
     (job_stream ((transformJob raw_s2)\<lparr>job_url := JStr []\<rparr>) @ ''.m3u8'') = ''http://root/s2.m3u8''"
    by (simp add: transformJob_def raw_s2_def rfc3986_root)
  show "typeof (job_url (transformJob raw_s2)) \<noteq> ''string''"
    by (simp add: scenario_jobs)
  show "url Url_resolve (transformJob raw_s2) (Some ''http://%zz@root/'') = Inl URIError"
    by (rule scenario_url_throws)
qed

section \<open>The schema constants\<close>

text \<open>
  Claim C9, as amended. The declared default of the argument \<^verbatim>\<open>streamRootUrl\<close> of
  the fields \<^verbatim>\<open>live\<close> and \<^verbatim>\<open>url\<close> of \<^verbatim>\<open>VideoJob\<close> is the constant
  \<^verbatim>\<open>DEFAULT_STREAM_ROOT\<close>, the string "http://streams.livepeer.org". The string of
  the claim as stated is the default of the option \<^verbatim>\<open>streamRoot\<close> of
  \<^verbatim>\<open>createSchema\<close>, which no declaration uses.
\<close>

theorem VideoJob_streamRootUrl_default:
  "map arg_name (VideoJob_args ''live'') = [''streamRootUrl''] \<and>
   map defaultValue (VideoJob_args ''live'') = [JStr ''http://streams.livepeer.org''] \<and>
   map arg_name (VideoJob_args ''url'') = [''streamRootUrl''] \<and>
   map defaultValue (VideoJob_args ''url'') = [JStr ''http://streams.livepeer.org'']"
  by (simp add: VideoJob_args_def DEFAULT_STREAM_ROOT_def)

theorem VideoJob_streamRootUrl_default_counterexample:
  "map defaultValue (VideoJob_args ''live'') \<noteq> [JStr ''http://www.streambox.fr/playlists/x36xhzz/''] \<and>
   map defaultValue (VideoJob_args ''url'') \<noteq> [JStr ''http://www.streambox.fr/playlists/x36xhzz/'']"
  by (simp add: VideoJob_args_def DEFAULT_STREAM_ROOT_def)

end
